theory Spec2Isabelle
  imports Complex_Main
begin

section \<open>Data model (types/index.ts)\<close>

text \<open>
  An index, a counter or a time in milliseconds is an integer that a JavaScript number
  holds exactly (every integer up to \<open>2^53\<close> is a double), and is modelled as an \<open>int\<close>.
  A quotient, a percentage, a displacement or a velocity is a double, modelled as the
  real number it denotes; the divisions and multiplications that produce one round to
  the nearest double, as defined in the next section. Only the length of the card array
  is ever read by the session hooks, but the deck is kept as a list of cards, as in the
  source.
\<close>

record Flashcard =
  card_id :: string
  title :: string
  question :: string
  explanation :: string

record FlashcardState =
  currentCardIndex :: int
  isFlipped :: bool
  isComplete :: bool
  progress :: real

section \<open>JavaScript numbers\<close>

text \<open>
  The result of an arithmetic operation on doubles is the exact result rounded to the
  nearest double, a tie going to the double with the even significand. A double has a
  significand of \<open>53\<close> bits: in the binade \<open>[2^e, 2^(e+1))\<close> the doubles are the multiples of
  \<open>2^(e-52)\<close>, and below \<open>2^(-1022)\<close> (the subnormal numbers) they are the multiples of
  \<open>2^(-1074)\<close>. \<open>binade x\<close> is that exponent \<open>e\<close>, and \<open>double x\<close> is the double nearest to
  \<open>x\<close>. Overflow is not modelled: the definition is that of the language for magnitudes
  below \<open>2^1024\<close>.
\<close>

definition roundTiesToEven :: "real \<Rightarrow> int" where
  "roundTiesToEven y =
     (let f = \<lfloor>y\<rfloor>; d = y - real_of_int f in
      if d < 1 / 2 then f else if d > 1 / 2 then f + 1 else if even f then f else f + 1)"

definition binade :: "real \<Rightarrow> int" where
  "binade x = max \<lfloor>log 2 \<bar>x\<bar>\<rfloor> (- 1022)"

definition double :: "real \<Rightarrow> real" where
  "double x =
     (if x = 0 then 0
      else real_of_int (roundTiesToEven (x / 2 powi (binade x - 52))) * 2 powi (binade x - 52))"

text \<open>
  The operators \<open>/\<close> and \<open>*\<close> on numbers. The model divides only where the divisor is not
  zero (the sources guard it, or the model does).
\<close>

definition js_div :: "real \<Rightarrow> real \<Rightarrow> real" where
  "js_div x y = double (x / y)"

definition js_mul :: "real \<Rightarrow> real \<Rightarrow> real" where
  "js_mul x y = double (x * y)"

text \<open>
  \<open>Math.round\<close> returns the integer nearest to its argument, a half going towards
  \<open>+\<infinity>\<close>; the argument is a double, and the result is exact.
\<close>

definition Math_round :: "real \<Rightarrow> int" where
  "Math_round x = \<lfloor>x + 1 / 2\<rfloor>"

text \<open>The numeric literal \<open>0.7\<close> denotes the double nearest to \<open>7/10\<close>.\<close>

definition literal_0_7 :: real where
  "literal_0_7 = double (7 / 10)"

section \<open>The session hook \<open>useFlashcardState\<close> (hooks/useFlashcardState.ts)\<close>

text \<open>
  Every action of the hook is a \<open>useCallback\<close> that reads \<open>state.currentCardIndex\<close> of the
  render it was created in (the argument \<open>state\<close> below) for its guard, and then queues a
  functional update \<open>setState(prev => ...)\<close> (the argument \<open>prev\<close>). The embedding keeps the
  two apart; an action called from the render that shows the current state has
  \<open>state = prev\<close>, and that is how the screen calls them: its swipe handlers allow one
  pending timer at a time, and the timer's callback makes one call.
\<close>

definition initialState :: FlashcardState where
  "initialState = \<lparr>currentCardIndex = 0, isFlipped = False, isComplete = False, progress = 0\<rparr>"

definition flipCard :: "FlashcardState \<Rightarrow> FlashcardState" where
  "flipCard prev = prev\<lparr>isFlipped := \<not> isFlipped prev\<rparr>"

definition nextCard :: "Flashcard list \<Rightarrow> FlashcardState \<Rightarrow> FlashcardState \<Rightarrow> FlashcardState" where
  "nextCard cards state prev =
     (if currentCardIndex state < int (length cards) - 1
      then prev\<lparr>currentCardIndex := currentCardIndex prev + 1, isFlipped := False\<rparr>
      else prev\<lparr>currentCardIndex := int (length cards), isFlipped := False, isComplete := True\<rparr>)"

definition previousCard :: "FlashcardState \<Rightarrow> FlashcardState \<Rightarrow> FlashcardState" where
  "previousCard state prev =
     (if currentCardIndex state > 0
      then prev\<lparr>currentCardIndex := currentCardIndex prev - 1, isFlipped := False,
                isComplete := False\<rparr>
      else prev)"

definition goToCard :: "Flashcard list \<Rightarrow> int \<Rightarrow> FlashcardState \<Rightarrow> FlashcardState" where
  "goToCard cards index prev =
     (if index \<ge> 0 \<and> index < int (length cards)
      then prev\<lparr>currentCardIndex := index, isFlipped := False, isComplete := False\<rparr>
      else prev)"

definition resetDeck :: "FlashcardState \<Rightarrow> FlashcardState" where
  "resetDeck prev = initialState"

text \<open>
  The selectors computed on every render. \<open>cards[i]\<close> is \<open>undefined\<close> for a negative \<open>i\<close>,
  which the callers (\<open>!currentCard\<close>, \<open>currentCard && ...\<close>) treat like \<open>null\<close>.
\<close>

definition canGoNext :: "Flashcard list \<Rightarrow> FlashcardState \<Rightarrow> bool" where
  "canGoNext cards state \<longleftrightarrow> currentCardIndex state < int (length cards) - 1"

definition canGoPrevious :: "FlashcardState \<Rightarrow> bool" where
  "canGoPrevious state \<longleftrightarrow> currentCardIndex state > 0"

definition getCurrentCard :: "Flashcard list \<Rightarrow> FlashcardState \<Rightarrow> Flashcard option" where
  "getCurrentCard cards state =
     (if 0 \<le> currentCardIndex state \<and> currentCardIndex state < int (length cards)
      then Some (cards ! nat (currentCardIndex state)) else None)"

text \<open>
  The two effects. The first recomputes the progress, the second marks completion; both
  have the dependencies \<open>state.currentCardIndex\<close> and \<open>cards.length\<close>, so after the mount
  they run exactly when the index has changed (the deck of a mounted hook is fixed). The
  second also depends on the \<open>onComplete\<close> prop, taken as stable here: running it again
  changes no value of a state whose index is below the length or whose \<open>isComplete\<close> is
  set already.
\<close>

definition progressEffect :: "Flashcard list \<Rightarrow> FlashcardState \<Rightarrow> FlashcardState" where
  "progressEffect cards s =
     s\<lparr>progress := (if length cards > 0
                     then js_mul (js_div (real_of_int (currentCardIndex s))
                                            (real (length cards))) 100
                     else 0)\<rparr>"

definition completionEffect :: "Flashcard list \<Rightarrow> FlashcardState \<Rightarrow> FlashcardState" where
  "completionEffect cards s =
     (if currentCardIndex s \<ge> int (length cards) \<and> length cards > 0
      then s\<lparr>isComplete := True\<rparr> else s)"

definition runEffects :: "Flashcard list \<Rightarrow> FlashcardState \<Rightarrow> FlashcardState \<Rightarrow> FlashcardState" where
  "runEffects cards before s =
     (if currentCardIndex s \<noteq> currentCardIndex before
      then completionEffect cards (progressEffect cards s) else s)"

text \<open>The state after the first render: the initial state, with both effects run once.\<close>

definition mount :: "Flashcard list \<Rightarrow> FlashcardState" where
  "mount cards = completionEffect cards (progressEffect cards initialState)"

datatype action = FlipCard | NextCard | PreviousCard | GoToCard int | ResetDeck

text \<open>
  One call of an action from the current render, and the same followed by the effects
  of the render it causes.
\<close>

fun dispatch :: "Flashcard list \<Rightarrow> action \<Rightarrow> FlashcardState \<Rightarrow> FlashcardState" where
  "dispatch cards FlipCard s = flipCard s"
| "dispatch cards NextCard s = nextCard cards s s"
| "dispatch cards PreviousCard s = previousCard s s"
| "dispatch cards (GoToCard i) s = goToCard cards i s"
| "dispatch cards ResetDeck s = resetDeck s"

definition step :: "Flashcard list \<Rightarrow> action \<Rightarrow> FlashcardState \<Rightarrow> FlashcardState" where
  "step cards a s = runEffects cards s (dispatch cards a s)"

section \<open>The gesture recognisers\<close>

text \<open>
  The payload of a finished pan gesture, and what a recogniser does with it: nothing at
  all (\<open>Ignored\<close>, the handler returned at once), spring the card back to the centre
  (\<open>SnapBack\<close>), or call one of the two swipe callbacks it was given.
\<close>

record PanEvent =
  translationX :: real
  translationY :: real
  velocityX :: real

datatype GestureOutcome = Ignored | SnapBack | CallSwipeLeft | CallSwipeRight

subsection \<open>\<open>useFlashcardGestures\<close> (hooks/useFlashcardGestures.ts)\<close>

text \<open>
  \<open>ENHANCED_GESTURE_CONFIG\<close>; the width of the window (\<open>SCREEN_WIDTH\<close>) is a parameter.
  Multiplying a double by \<open>0.25\<close> is exact, so the threshold is the exact product.
\<close>

definition SWIPE_THRESHOLD :: "real \<Rightarrow> real" where
  "SWIPE_THRESHOLD SCREEN_WIDTH = SCREEN_WIDTH * 0.25"

definition SWIPE_VELOCITY_THRESHOLD :: real where
  "SWIPE_VELOCITY_THRESHOLD = 300"

text \<open>The cooldown is read by \<open>onStart\<close> of the pan handler only.\<close>

definition RAPID_GESTURE_COOLDOWN :: int where
  "RAPID_GESTURE_COOLDOWN = 150"

text \<open>\<open>panGestureHandler.onEnd\<close>.\<close>

definition shouldSwipeLeft :: "real \<Rightarrow> bool \<Rightarrow> PanEvent \<Rightarrow> bool" where
  "shouldSwipeLeft SCREEN_WIDTH canSwipeLeft event \<longleftrightarrow>
     (translationX event > SWIPE_THRESHOLD SCREEN_WIDTH \<or>
      (translationX event > 50 \<and> velocityX event > SWIPE_VELOCITY_THRESHOLD)) \<and> canSwipeLeft"

definition shouldSwipeRight :: "real \<Rightarrow> bool \<Rightarrow> PanEvent \<Rightarrow> bool" where
  "shouldSwipeRight SCREEN_WIDTH canSwipeRight event \<longleftrightarrow>
     (translationX event < - SWIPE_THRESHOLD SCREEN_WIDTH \<or>
      (translationX event < - 50 \<and> velocityX event < - SWIPE_VELOCITY_THRESHOLD)) \<and> canSwipeRight"

definition panGestureHandler_onEnd ::
  "real \<Rightarrow> bool \<Rightarrow> bool \<Rightarrow> bool \<Rightarrow> PanEvent \<Rightarrow> GestureOutcome" where
  "panGestureHandler_onEnd SCREEN_WIDTH disabled canSwipeLeft canSwipeRight event =
     (if disabled then Ignored
      else if \<bar>translationY event\<bar> > js_mul \<bar>translationX event\<bar> literal_0_7 then SnapBack
      else if shouldSwipeLeft SCREEN_WIDTH canSwipeLeft event then CallSwipeLeft
      else if shouldSwipeRight SCREEN_WIDTH canSwipeRight event then CallSwipeRight
      else SnapBack)"

text \<open>
  \<open>tapGestureHandler.onEnd\<close>: whether \<open>onTap\<close> is called. \<open>stateEnd\<close> is
  \<open>event.state === State.END\<close>, \<open>animating\<close> is the shared value \<open>isAnimating\<close>.
\<close>

definition tapGestureHandler_onEnd :: "bool \<Rightarrow> bool \<Rightarrow> bool \<Rightarrow> bool" where
  "tapGestureHandler_onEnd disabled animating stateEnd \<longleftrightarrow>
     (if disabled \<or> animating then False else stateEnd)"

subsection \<open>\<open>handlePanGestureStateChange\<close> of the card (components/FlashCard.tsx)\<close>

definition handlePanGestureStateChange :: "real \<Rightarrow> bool \<Rightarrow> PanEvent \<Rightarrow> GestureOutcome" where
  "handlePanGestureStateChange SCREEN_WIDTH stateEnd event =
     (if stateEnd then
        (let swipeThreshold = SCREEN_WIDTH * 0.25; velocityThreshold = 500 in
         if translationX event > swipeThreshold \<or> velocityX event > velocityThreshold
         then CallSwipeRight
         else if translationX event < - swipeThreshold \<or> velocityX event < - velocityThreshold
         then CallSwipeLeft
         else SnapBack)
      else Ignored)"

section \<open>The screen (screens/FlashcardsScreen.tsx)\<close>

text \<open>
  The screen owns the session hook, an \<open>isAnimating\<close> flag, its own \<open>isComplete\<close> flag
  (set by \<open>handleDeckComplete\<close>, the hook's \<open>onComplete\<close>) and the time of the last accepted
  swipe. A swipe handler that passes its guards starts a 200 ms timer whose callback
  performs the session action; the pending callback is the field \<open>scr_pending\<close>.
  \<open>Date.now()\<close> is the argument \<open>now\<close>, in milliseconds.
\<close>

record Screen =
  scr_state :: FlashcardState
  scr_isComplete :: bool
  scr_isAnimating :: bool
  lastSwipeTime :: int
  scr_pending :: "action option"

definition SWIPE_COOLDOWN :: int where
  "SWIPE_COOLDOWN = 300"

definition initialScreen :: "Flashcard list \<Rightarrow> Screen" where
  "initialScreen cards =
     \<lparr>scr_state = mount cards, scr_isComplete = False, scr_isAnimating = False,
      lastSwipeTime = 0, scr_pending = None\<rparr>"

definition handleSwipeLeft :: "Flashcard list \<Rightarrow> int \<Rightarrow> Screen \<Rightarrow> Screen" where
  "handleSwipeLeft cards now scr =
     (if now - lastSwipeTime scr < SWIPE_COOLDOWN \<or> scr_isAnimating scr then scr
      else if canGoNext cards (scr_state scr)
      then scr\<lparr>lastSwipeTime := now, scr_isAnimating := True, scr_pending := Some NextCard\<rparr>
      else scr\<lparr>lastSwipeTime := now\<rparr>)"

definition handleSwipeRight :: "Flashcard list \<Rightarrow> int \<Rightarrow> Screen \<Rightarrow> Screen" where
  "handleSwipeRight cards now scr =
     (if now - lastSwipeTime scr < SWIPE_COOLDOWN \<or> scr_isAnimating scr then scr
      else if canGoPrevious (scr_state scr)
      then scr\<lparr>lastSwipeTime := now, scr_isAnimating := True, scr_pending := Some PreviousCard\<rparr>
      else scr\<lparr>lastSwipeTime := now\<rparr>)"

definition handleFlip :: "Screen \<Rightarrow> Screen" where
  "handleFlip scr =
     (if \<not> scr_isAnimating scr then scr\<lparr>scr_state := flipCard (scr_state scr)\<rparr> else scr)"

text \<open>
  The screen passes \<open>handleDeckComplete\<close> as the hook's \<open>onComplete\<close>. It is a function
  declared in the body of the component, hence a new one on every render, and it is a
  dependency of the hook's completion effect: inside the screen that effect runs
  after every render, whether or not the index has changed. Its guard is
  \<open>onCompleteCalled\<close>; when the guard holds, the effect sets \<open>isComplete\<close> of the session
  and calls \<open>handleDeckComplete\<close>, which sets the \<open>isComplete\<close> of the screen. (Once the
  guard holds, every render ends in another \<open>setState\<close> and so in another render, with
  the same values.)
\<close>

definition onCompleteCalled :: "Flashcard list \<Rightarrow> FlashcardState \<Rightarrow> bool" where
  "onCompleteCalled cards s \<longleftrightarrow>
     currentCardIndex s \<ge> int (length cards) \<and> length cards > 0"

definition screenEffects ::
  "Flashcard list \<Rightarrow> FlashcardState \<Rightarrow> FlashcardState \<Rightarrow> FlashcardState" where
  "screenEffects cards before s =
     completionEffect cards
       (if currentCardIndex s \<noteq> currentCardIndex before then progressEffect cards s else s)"

text \<open>
  The timer callback: the session action, then \<open>setIsAnimating(false)\<close>, and the effects
  of the render that follows.
\<close>

definition swipeTimeout :: "Flashcard list \<Rightarrow> Screen \<Rightarrow> Screen" where
  "swipeTimeout cards scr =
     (case scr_pending scr of
        None \<Rightarrow> scr
      | Some a \<Rightarrow>
          scr\<lparr>scr_state := screenEffects cards (scr_state scr) (dispatch cards a (scr_state scr)),
              scr_isComplete := scr_isComplete scr \<or>
                 onCompleteCalled cards (dispatch cards a (scr_state scr)),
              scr_isAnimating := False,
              scr_pending := None\<rparr>)"

text \<open>
  The swipe callbacks that the screen hands to a recogniser: \<open>onSwipeLeft\<close> is
  \<open>handleSwipeLeft\<close>, \<open>onSwipeRight\<close> is \<open>handleSwipeRight\<close>.
\<close>

definition deliver :: "Flashcard list \<Rightarrow> int \<Rightarrow> GestureOutcome \<Rightarrow> Screen \<Rightarrow> Screen" where
  "deliver cards now outcome scr =
     (case outcome of
        CallSwipeLeft \<Rightarrow> handleSwipeLeft cards now scr
      | CallSwipeRight \<Rightarrow> handleSwipeRight cards now scr
      | _ \<Rightarrow> scr)"

text \<open>
  A finished pan gesture, recognised by the card component, the one recogniser that the
  screen mounts (the pan handler of \<open>useFlashcardGestures\<close> is created by the screen but
  attached to no view). The screen renders the card only while there is a current card.
\<close>

definition panEnd_card :: "real \<Rightarrow> Flashcard list \<Rightarrow> int \<Rightarrow> PanEvent \<Rightarrow> Screen \<Rightarrow> Screen" where
  "panEnd_card SCREEN_WIDTH cards now event scr =
     (if getCurrentCard cards (scr_state scr) = None then scr
      else deliver cards now (handlePanGestureStateChange SCREEN_WIDTH True event) scr)"

text \<open>
  The hook's tap handler as the screen configures it: \<open>onTap: handleFlip\<close>,
  \<open>disabled: isComplete || !currentCard\<close>. A tap that ends at time \<open>now\<close>, through that
  handler (\<open>animating\<close> is the hook's own shared value). Neither the tap handler nor
  \<open>handleFlip\<close> reads a clock.
\<close>

definition gesturesDisabled :: "Flashcard list \<Rightarrow> Screen \<Rightarrow> bool" where
  "gesturesDisabled cards scr \<longleftrightarrow>
     scr_isComplete scr \<or> getCurrentCard cards (scr_state scr) = None"

definition tapEnd :: "Flashcard list \<Rightarrow> bool \<Rightarrow> int \<Rightarrow> Screen \<Rightarrow> Screen" where
  "tapEnd cards animating now scr =
     (if tapGestureHandler_onEnd (gesturesDisabled cards scr) animating True
      then handleFlip scr else scr)"

section \<open>\<open>flashcardUtils\<close> (utils/flashcardUtils.ts, in the sources the third part of
  utils/accessibility.ts)\<close>

definition calculateProgress :: "int \<Rightarrow> int \<Rightarrow> int" where
  "calculateProgress currentIndex totalCards =
     (if totalCards = 0 then 0
      else Math_round (js_mul (js_div (real_of_int currentIndex) (real_of_int totalCards)) 100))"

definition calculateScore :: "int \<Rightarrow> int \<Rightarrow> int" where
  "calculateScore nCorrect nTotal =
     (if nTotal = 0 then 0
      else Math_round (js_mul (js_div (real_of_int nCorrect) (real_of_int nTotal)) 100))"

datatype StudyMode = Sequential | Random | Spaced

text \<open>
  The \<open>do ... while (nextIndex === currentIndex)\<close> loop of the random mode, over the
  successive values of \<open>Math.random()\<close>; \<open>None\<close> when the given draws end before the loop
  does. \<open>Math.random()\<close> returns a double in \<open>[0, 1)\<close>, so at most \<open>1 - 2^(-53)\<close>.
\<close>

fun drawOther :: "int \<Rightarrow> int \<Rightarrow> real list \<Rightarrow> int option" where
  "drawOther currentIndex totalCards [] = None"
| "drawOther currentIndex totalCards (r # rs) =
     (let nextIndex = \<lfloor>js_mul r (real_of_int totalCards)\<rfloor> in
      if nextIndex = currentIndex then drawOther currentIndex totalCards rs
      else Some nextIndex)"

text \<open>
  \<open>getNextCardIndex\<close>: the outer \<open>option\<close> is \<open>None\<close> when the loop has not ended, the
  inner one is the source's \<open>number | null\<close>.
\<close>

fun getNextCardIndex :: "int \<Rightarrow> int \<Rightarrow> StudyMode \<Rightarrow> real list \<Rightarrow> int option option" where
  "getNextCardIndex currentIndex totalCards Sequential rs =
     Some (if currentIndex < totalCards - 1 then Some (currentIndex + 1) else None)"
| "getNextCardIndex currentIndex totalCards Random rs =
     (if totalCards \<le> 1 then Some None
      else map_option Some (drawOther currentIndex totalCards rs))"
| "getNextCardIndex currentIndex totalCards Spaced rs =
     Some (if currentIndex < totalCards - 1 then Some (currentIndex + 1) else None)"

record FlashcardProgress =
  progress_deckId :: string
  progress_currentCardIndex :: int
  progress_completedAt :: "string option"
  progress_totalStudyTime :: int
  progress_correctAnswers :: int
  progress_totalAnswers :: int

record DeckStatistics =
  deckId :: string
  timesCompleted :: int
  averageScore :: int
  lastCompletedAt :: string
  totalStudyTime :: int
  favoriteCards :: "string list"

subsection \<open>Objects used as dictionaries\<close>

text \<open>
  The tables of the persistence functions are plain objects (\<open>Record<string, T>\<close>), read
  with \<open>table[deckId]\<close> and written with \<open>table[deckId] = value\<close>. An object read back
  from the storage has the properties that were stored (its own properties, the map
  below) and inherits those of \<open>Object.prototype\<close>. Reading a key that is not an own
  property finds the inherited member of that name, if there is one. Writing creates or
  updates an own property, except for the key \<open>__proto__\<close> on an object that has no own
  property of that name: there the assignment runs the inherited setter, which replaces
  the prototype of the object and creates no property. \<open>delete\<close> removes an own property.
\<close>

definition Object_prototype_keys :: "string list" where
  "Object_prototype_keys =
     [''constructor'', ''__defineGetter__'', ''__defineSetter__'', ''hasOwnProperty'',
      ''__lookupGetter__'', ''__lookupSetter__'', ''isPrototypeOf'', ''propertyIsEnumerable'',
      ''toString'', ''valueOf'', ''__proto__'', ''toLocaleString'']"

text \<open>
  What \<open>table?.[key] || null\<close> evaluates to: the own property, the member inherited from
  \<open>Object.prototype\<close> (a function, or for \<open>__proto__\<close> the prototype itself; both are
  truthy), or \<open>null\<close> (\<open>Absent\<close>).
\<close>

datatype 'a Lookup = Own 'a | Inherited string | Absent

definition js_get :: "(string \<rightharpoonup> 'a) \<Rightarrow> string \<Rightarrow> 'a Lookup" where
  "js_get table key =
     (case table key of
        Some v \<Rightarrow> Own v
      | None \<Rightarrow> if key \<in> set Object_prototype_keys then Inherited key else Absent)"

definition js_set :: "(string \<rightharpoonup> 'a) \<Rightarrow> string \<Rightarrow> 'a \<Rightarrow> (string \<rightharpoonup> 'a)" where
  "js_set table key v =
     (if key = ''__proto__'' \<and> table key = None then table else table(key \<mapsto> v))"

subsection \<open>The key-value storage\<close>

text \<open>
  Modelled from the spec: the module \<open>utils/storage\<close> (\<open>storage.get\<close>, \<open>storage.set\<close>) is not
  among the sources. The specification gives its contract, \<open>get(key) -> value | absent\<close>
  and \<open>set(key, value) -> success\<close>, with JSON-serialisable records as values and failures
  that the callers log and swallow. A stored table is therefore the JSON text of an
  object, that is, its own properties: \<open>set\<close> keeps those, and \<open>get\<close> returns a fresh
  object that has them. The three keys that the modelled functions use are
  the fields of the record, each holding a value of its own type or nothing; a key is
  passed as the field's selector (for \<open>get\<close>) or update function (for \<open>set\<close>). An operation
  on a storage that is not \<open>available\<close> throws.
\<close>

record Storage =
  available :: bool
  FLASHCARD_PROGRESS :: "(string \<rightharpoonup> FlashcardProgress) option"
  DECK_STATISTICS :: "(string \<rightharpoonup> DeckStatistics) option"
  COMPLETED_DECKS :: "string list option"

datatype StorageError = StorageError

text \<open>
  Modelled from the spec: \<open>get(key) -> value | absent\<close>. A failure, which the callers catch
  and log, is \<open>Inl\<close>.
\<close>

definition storage_get :: "Storage \<Rightarrow> (Storage \<Rightarrow> 'a option) \<Rightarrow> StorageError + 'a option" where
  "storage_get kv key = (if available kv then Inr (key kv) else Inl StorageError)"

text \<open>
  Modelled from the spec: \<open>set(key, value) -> success\<close> replaces what is stored under the
  key. A failure is \<open>Inl\<close>, and leaves the storage as it was.
\<close>

definition storage_set ::
  "Storage \<Rightarrow> (('a option \<Rightarrow> 'a option) \<Rightarrow> Storage \<Rightarrow> Storage) \<Rightarrow> 'a \<Rightarrow> StorageError + Storage" where
  "storage_set kv key_update v =
     (if available kv then Inr (key_update (\<lambda>_. Some v) kv) else Inl StorageError)"

text \<open>Modelled from the spec: a storage that works and holds nothing yet.\<close>

definition emptyStorage :: Storage where
  "emptyStorage = \<lparr>available = True, FLASHCARD_PROGRESS = None, DECK_STATISTICS = None,
                    COMPLETED_DECKS = None\<rparr>"

subsection \<open>Persistence functions\<close>

text \<open>
  Each function is one \<open>try\<close> block whose \<open>catch\<close> logs the error; what it leaves in the
  storage is the result. \<open>x || {}\<close> and \<open>x || []\<close> replace an absent value. Each function
  is taken as one step: nothing else writes to the storage between its \<open>get\<close> and its
  \<open>set\<close>.
\<close>

definition saveProgress :: "Storage \<Rightarrow> string \<Rightarrow> FlashcardProgress \<Rightarrow> Storage" where
  "saveProgress kv deck_id p =
     (case storage_get kv FLASHCARD_PROGRESS of
        Inl e \<Rightarrow> kv
      | Inr found \<Rightarrow>
          (let existingProgresses = (case found of None \<Rightarrow> Map.empty | Some m \<Rightarrow> m) in
           case storage_set kv FLASHCARD_PROGRESS_update (js_set existingProgresses deck_id p) of
             Inl e \<Rightarrow> kv
           | Inr kv' \<Rightarrow> kv'))"

definition loadProgress :: "Storage \<Rightarrow> string \<Rightarrow> FlashcardProgress Lookup" where
  "loadProgress kv deck_id =
     (case storage_get kv FLASHCARD_PROGRESS of
        Inl e \<Rightarrow> Absent
      | Inr found \<Rightarrow>
          (case found of None \<Rightarrow> Absent | Some progresses \<Rightarrow> js_get progresses deck_id))"

definition saveDeckStatistics :: "Storage \<Rightarrow> string \<Rightarrow> DeckStatistics \<Rightarrow> Storage" where
  "saveDeckStatistics kv deck_id stats =
     (case storage_get kv DECK_STATISTICS of
        Inl e \<Rightarrow> kv
      | Inr found \<Rightarrow>
          (let existingStats = (case found of None \<Rightarrow> Map.empty | Some m \<Rightarrow> m) in
           case storage_set kv DECK_STATISTICS_update (js_set existingStats deck_id stats) of
             Inl e \<Rightarrow> kv
           | Inr kv' \<Rightarrow> kv'))"

definition loadDeckStatistics :: "Storage \<Rightarrow> string \<Rightarrow> DeckStatistics Lookup" where
  "loadDeckStatistics kv deck_id =
     (case storage_get kv DECK_STATISTICS of
        Inl e \<Rightarrow> Absent
      | Inr found \<Rightarrow> (case found of None \<Rightarrow> Absent | Some stats \<Rightarrow> js_get stats deck_id))"

definition markDeckCompleted :: "Storage \<Rightarrow> string \<Rightarrow> Storage" where
  "markDeckCompleted kv deck_id =
     (case storage_get kv COMPLETED_DECKS of
        Inl e \<Rightarrow> kv
      | Inr found \<Rightarrow>
          (let completedDecks = (case found of None \<Rightarrow> [] | Some ds \<Rightarrow> ds) in
           if deck_id \<notin> set completedDecks
           then (case storage_set kv COMPLETED_DECKS_update (completedDecks @ [deck_id]) of
                   Inl e \<Rightarrow> kv
                 | Inr kv' \<Rightarrow> kv')
           else kv))"

definition resetDeckProgress :: "Storage \<Rightarrow> string \<Rightarrow> Storage" where
  "resetDeckProgress kv deck_id =
     (case storage_get kv FLASHCARD_PROGRESS of
        Inl e \<Rightarrow> kv
      | Inr found \<Rightarrow>
          (let progresses = (case found of None \<Rightarrow> Map.empty | Some m \<Rightarrow> m) in
           case storage_set kv FLASHCARD_PROGRESS_update (progresses(deck_id := None)) of
             Inl e \<Rightarrow> kv
           | Inr kv1 \<Rightarrow>
               (case storage_get kv1 COMPLETED_DECKS of
                  Inl e \<Rightarrow> kv1
                | Inr found' \<Rightarrow>
                    (let completedDecks = (case found' of None \<Rightarrow> [] | Some ds \<Rightarrow> ds);
                         updatedCompleted = filter (\<lambda>d. d \<noteq> deck_id) completedDecks in
                     case storage_set kv1 COMPLETED_DECKS_update updatedCompleted of
                       Inl e \<Rightarrow> kv1
                     | Inr kv2 \<Rightarrow> kv2))))"

section \<open>The session hook \<open>useFlashcards\<close> (hooks/useFlashcards.ts, in the sources
  unnamed/part_005)\<close>

text \<open>
  The second session hook keeps, besides the \<open>FlashcardState\<close>, the counters of the
  running session, and mirrors itself to the storage. Its props and the study-mode
  preference are fixed during a run. The hook only ever reads the length of its card
  array, which shuffling does not change, so the order of the cards is not modelled.
  \<open>Date.now()\<close> is the argument \<open>now\<close>; \<open>new Date().toISOString()\<close> is the argument \<open>isoNow\<close>.
  The hook is modelled once its initial load has ended (\<open>isLoading = false\<close>); the
  restoring of a saved index by that load is not part of the model.

  The completion handler \<open>completeSession\<close> is asynchronous: between its start and the
  \<open>setState\<close> that sets \<open>isComplete\<close> it awaits three calls of the persistence functions,
  and the hook renders and accepts actions in the meantime. A started handler is kept
  in the field \<open>hk_completions\<close>, as the call that it is waiting for together with the
  statistics that it holds.
\<close>

record FlashcardSession =
  startTime :: int
  currentCardTime :: int
  totalAnswers :: int
  correctAnswers :: int

record HookProps =
  deck_id :: string
  deck_cards :: "Flashcard list"
  studyMode :: StudyMode
  autoSave :: bool

datatype CompletionTask =
    AwaitLoad DeckStatistics
  | AwaitSave DeckStatistics
  | AwaitMark DeckStatistics

record Flashcards =
  hk_state :: FlashcardState
  hk_session :: FlashcardSession
  hk_storage :: Storage
  hk_completions :: "CompletionTask list"

definition uf_flipCard :: "int \<Rightarrow> Flashcards \<Rightarrow> Flashcards" where
  "uf_flipCard now h =
     h\<lparr>hk_state := (hk_state h)\<lparr>isFlipped := \<not> isFlipped (hk_state h)\<rparr>,
       hk_session := (hk_session h)\<lparr>currentCardTime := now\<rparr>\<rparr>"

definition uf_nextCard ::
  "HookProps \<Rightarrow> real list \<Rightarrow> int \<Rightarrow> FlashcardState \<Rightarrow> Flashcards \<Rightarrow> Flashcards option" where
  "uf_nextCard props rs now state h =
     (case getNextCardIndex (currentCardIndex state) (int (length (deck_cards props)))
             (studyMode props) rs of
        None \<Rightarrow> None
      | Some nextIndex \<Rightarrow>
          Some (h\<lparr>hk_state :=
                    (case nextIndex of
                       Some i \<Rightarrow> (hk_state h)\<lparr>currentCardIndex := i, isFlipped := False\<rparr>
                     | None \<Rightarrow> (hk_state h)\<lparr>currentCardIndex := int (length (deck_cards props)),
                                            isFlipped := False\<rparr>),
                  hk_session := (hk_session h)\<lparr>currentCardTime := now\<rparr>\<rparr>))"

definition uf_previousCard :: "int \<Rightarrow> FlashcardState \<Rightarrow> Flashcards \<Rightarrow> Flashcards" where
  "uf_previousCard now state h =
     (if currentCardIndex state > 0
      then h\<lparr>hk_state := (hk_state h)\<lparr>currentCardIndex := currentCardIndex (hk_state h) - 1,
                                       isFlipped := False, isComplete := False\<rparr>,
             hk_session := (hk_session h)\<lparr>currentCardTime := now\<rparr>\<rparr>
      else h)"

definition uf_goToCard :: "HookProps \<Rightarrow> int \<Rightarrow> int \<Rightarrow> Flashcards \<Rightarrow> Flashcards" where
  "uf_goToCard props now index h =
     (if index \<ge> 0 \<and> index < int (length (deck_cards props))
      then h\<lparr>hk_state := (hk_state h)\<lparr>currentCardIndex := index, isFlipped := False,
                                       isComplete := False\<rparr>,
             hk_session := (hk_session h)\<lparr>currentCardTime := now\<rparr>\<rparr>
      else h)"

text \<open>
  \<open>resetDeck\<close> sets the state and the session at once; its call of \<open>resetDeckProgress\<close>
  is taken together with them.
\<close>

definition uf_resetDeck :: "HookProps \<Rightarrow> int \<Rightarrow> Flashcards \<Rightarrow> Flashcards" where
  "uf_resetDeck props now h =
     h\<lparr>hk_state := initialState,
       hk_session := \<lparr>startTime = now, currentCardTime = now, totalAnswers = 0,
                      correctAnswers = 0\<rparr>,
       hk_storage := (if autoSave props then resetDeckProgress (hk_storage h) (deck_id props)
                      else hk_storage h)\<rparr>"

definition markAnswer :: "bool \<Rightarrow> Flashcards \<Rightarrow> Flashcards" where
  "markAnswer isCorrect h =
     h\<lparr>hk_session := (hk_session h)\<lparr>totalAnswers := totalAnswers (hk_session h) + 1,
          correctAnswers := correctAnswers (hk_session h) + (if isCorrect then 1 else 0)\<rparr>\<rparr>"

subsection \<open>\<open>completeSession\<close>\<close>

text \<open>
  The part of \<open>completeSession\<close> that runs at once, before the first \<open>await\<close>: the
  statistics of the session, from the session object of the render in which the effect
  ran. \<open>Math.floor\<close> is the floor of the double quotient.
\<close>

definition sessionStatistics ::
  "HookProps \<Rightarrow> int \<Rightarrow> string \<Rightarrow> FlashcardSession \<Rightarrow> DeckStatistics" where
  "sessionStatistics props now isoNow sess =
     (let totalTime = \<lfloor>js_div (real_of_int (now - startTime sess)) 1000\<rfloor>;
          score = calculateScore (correctAnswers sess) (totalAnswers sess)
      in \<lparr>deckId = deck_id props, timesCompleted = 1, averageScore = score,
          lastCompletedAt = isoNow, totalStudyTime = totalTime, favoriteCards = []\<rparr>)"

text \<open>
  The merge with what \<open>loadDeckStatistics\<close> returned (\<open>if (existingStats) ...\<close>); the score
  of the session is still the \<open>averageScore\<close> of \<open>statistics\<close> when the average is
  computed. Two cases leave the record type and are \<open>None\<close>: an inherited member is
  truthy but has none of the fields, so that the counters become \<open>NaN\<close>; and a stored
  count of \<open>-1\<close> makes the divisor zero.
\<close>

definition mergeStatistics :: "DeckStatistics \<Rightarrow> DeckStatistics Lookup \<Rightarrow> DeckStatistics option" where
  "mergeStatistics statistics existing =
     (case existing of
        Absent \<Rightarrow> Some statistics
      | Inherited member \<Rightarrow> None
      | Own existingStats \<Rightarrow>
          if timesCompleted existingStats + 1 = 0 then None
          else
            Some (let s1 = statistics\<lparr>timesCompleted := timesCompleted existingStats + 1\<rparr>;
                      s2 = s1\<lparr>averageScore := Math_round
                             (js_div (real_of_int (averageScore existingStats
                                                    * timesCompleted existingStats
                                                    + averageScore statistics))
                                     (real_of_int (timesCompleted s1)))\<rparr>;
                      s3 = s2\<lparr>totalStudyTime := totalStudyTime s2 + totalStudyTime existingStats\<rparr>
                  in s3\<lparr>favoriteCards := favoriteCards existingStats\<rparr>))"

text \<open>
  One \<open>await\<close> of a started handler ends: the awaited persistence function acts on the
  storage as it is then, and the handler runs on to its next \<open>await\<close>, or to its end,
  where it sets \<open>isComplete\<close> with \<open>setState(prev => ({ ...prev, isComplete: true }))\<close>. The
  result is the call that the handler waits for next, if any, and the hook afterwards.
\<close>

fun completion_resume ::
  "HookProps \<Rightarrow> CompletionTask \<Rightarrow> Flashcards \<Rightarrow> (CompletionTask option \<times> Flashcards) option" where
  "completion_resume props (AwaitLoad statistics) h =
     map_option (\<lambda>merged. (Some (AwaitSave merged), h))
       (mergeStatistics statistics (loadDeckStatistics (hk_storage h) (deck_id props)))"
| "completion_resume props (AwaitSave statistics) h =
     Some (Some (AwaitMark statistics),
           h\<lparr>hk_storage := saveDeckStatistics (hk_storage h) (deck_id props) statistics\<rparr>)"
| "completion_resume props (AwaitMark statistics) h =
     Some (None,
           h\<lparr>hk_storage := markDeckCompleted (hk_storage h) (deck_id props),
             hk_state := (hk_state h)\<lparr>isComplete := True\<rparr>\<rparr>)"

text \<open>
  The same for the \<open>k\<close>-th of the started handlers of the hook. (The render after the
  last step runs the completion effect again, whose guard is then false.)
\<close>

definition uf_resume :: "HookProps \<Rightarrow> nat \<Rightarrow> Flashcards \<Rightarrow> Flashcards option" where
  "uf_resume props k h =
     (if k < length (hk_completions h)
      then map_option
             (\<lambda>(next, h'). h'\<lparr>hk_completions :=
                  (case next of
                     Some task \<Rightarrow> (hk_completions h)[k := task]
                   | None \<Rightarrow> take k (hk_completions h) @ drop (Suc k) (hk_completions h))\<rparr>)
             (completion_resume props (hk_completions h ! k) h)
      else Some h)"

subsection \<open>Effects and steps\<close>

text \<open>
  The callback of the debounced auto-save timer, the progress effect, and the completion
  effect, which starts \<open>completeSession\<close> and changes nothing by itself.
\<close>

definition autoSaveEffect :: "HookProps \<Rightarrow> int \<Rightarrow> Flashcards \<Rightarrow> Flashcards" where
  "autoSaveEffect props now h =
     (if \<not> autoSave props then h
      else h\<lparr>hk_storage := saveProgress (hk_storage h) (deck_id props)
               \<lparr>progress_deckId = deck_id props,
                progress_currentCardIndex = currentCardIndex (hk_state h),
                progress_completedAt = None,
                progress_totalStudyTime =
                  \<lfloor>js_div (real_of_int (now - startTime (hk_session h))) 1000\<rfloor>,
                progress_correctAnswers = correctAnswers (hk_session h),
                progress_totalAnswers = totalAnswers (hk_session h)\<rparr>\<rparr>)"

definition uf_progressEffect :: "HookProps \<Rightarrow> Flashcards \<Rightarrow> Flashcards" where
  "uf_progressEffect props h =
     h\<lparr>hk_state := (hk_state h)\<lparr>progress :=
          real_of_int (calculateProgress (currentCardIndex (hk_state h))
                         (int (length (deck_cards props))))\<rparr>\<rparr>"

definition uf_completionEffect :: "HookProps \<Rightarrow> int \<Rightarrow> string \<Rightarrow> Flashcards \<Rightarrow> Flashcards" where
  "uf_completionEffect props now isoNow h =
     (if currentCardIndex (hk_state h) \<ge> int (length (deck_cards props))
         \<and> length (deck_cards props) > 0 \<and> \<not> isComplete (hk_state h)
      then h\<lparr>hk_completions := hk_completions h
                 @ [AwaitLoad (sessionStatistics props now isoNow (hk_session h))]\<rparr>
      else h)"

text \<open>
  Which actions replace the session object (\<open>setSession\<close>), a dependency of the completion
  effect; its other dependencies are the index, \<open>isComplete\<close> and props, which are stable.
\<close>

fun uf_setsSession :: "HookProps \<Rightarrow> action \<Rightarrow> FlashcardState \<Rightarrow> bool" where
  "uf_setsSession props FlipCard state = True"
| "uf_setsSession props NextCard state = True"
| "uf_setsSession props PreviousCard state = (currentCardIndex state > 0)"
| "uf_setsSession props (GoToCard i) state = (i \<ge> 0 \<and> i < int (length (deck_cards props)))"
| "uf_setsSession props ResetDeck state = True"

definition uf_runEffects ::
  "HookProps \<Rightarrow> int \<Rightarrow> string \<Rightarrow> Flashcards \<Rightarrow> bool \<Rightarrow> Flashcards \<Rightarrow> Flashcards" where
  "uf_runEffects props now isoNow before sessionSet h =
     (let indexChanged = currentCardIndex (hk_state h) \<noteq> currentCardIndex (hk_state before);
          h1 = (if indexChanged then uf_progressEffect props h else h)
      in if indexChanged \<or> sessionSet
            \<or> isComplete (hk_state h) \<noteq> isComplete (hk_state before)
         then uf_completionEffect props now isoNow h1 else h1)"

definition uf_mount :: "HookProps \<Rightarrow> int \<Rightarrow> string \<Rightarrow> Storage \<Rightarrow> Flashcards" where
  "uf_mount props now isoNow kv =
     uf_completionEffect props now isoNow (uf_progressEffect props
       \<lparr>hk_state = initialState,
        hk_session = \<lparr>startTime = now, currentCardTime = now, totalAnswers = 0,
                      correctAnswers = 0\<rparr>,
        hk_storage = kv,
        hk_completions = []\<rparr>)"

fun uf_dispatch ::
  "HookProps \<Rightarrow> real list \<Rightarrow> int \<Rightarrow> action \<Rightarrow> Flashcards \<Rightarrow> Flashcards option" where
  "uf_dispatch props rs now FlipCard h = Some (uf_flipCard now h)"
| "uf_dispatch props rs now NextCard h = uf_nextCard props rs now (hk_state h) h"
| "uf_dispatch props rs now PreviousCard h = Some (uf_previousCard now (hk_state h) h)"
| "uf_dispatch props rs now (GoToCard i) h = Some (uf_goToCard props now i h)"
| "uf_dispatch props rs now ResetDeck h = Some (uf_resetDeck props now h)"

text \<open>
  One action and the effects of the render it causes; \<open>None\<close> when the random draw of
  \<open>getNextCardIndex\<close> has not ended on the given draws.
\<close>

definition uf_step ::
  "HookProps \<Rightarrow> real list \<Rightarrow> int \<Rightarrow> string \<Rightarrow> action \<Rightarrow> Flashcards \<Rightarrow> Flashcards option" where
  "uf_step props rs now isoNow a h =
     map_option (uf_runEffects props now isoNow h (uf_setsSession props a (hk_state h)))
       (uf_dispatch props rs now a h)"

section \<open>Properties of the session state\<close>

text \<open>
  The invariant as the specification words it: the index stays within \<open>0..length\<close>, and it
  equals the length exactly when the session is complete.
\<close>

definition spec_invariant :: "Flashcard list \<Rightarrow> FlashcardState \<Rightarrow> bool" where
  "spec_invariant cards s \<longleftrightarrow>
     0 \<le> currentCardIndex s \<and> currentCardIndex s \<le> int (length cards) \<and>
     (currentCardIndex s = int (length cards) \<longleftrightarrow> isComplete s)"

text \<open>
  The invariant that \<open>useFlashcardState\<close> keeps: as above, except that on an empty deck
  the index is at the length without the session being complete, until \<open>nextCard\<close> is
  called.
\<close>

definition sessionInvariant :: "Flashcard list \<Rightarrow> FlashcardState \<Rightarrow> bool" where
  "sessionInvariant cards s \<longleftrightarrow>
     0 \<le> currentCardIndex s \<and> currentCardIndex s \<le> int (length cards) \<and>
     (isComplete s \<longrightarrow> currentCardIndex s = int (length cards)) \<and>
     (cards \<noteq> [] \<longrightarrow> currentCardIndex s = int (length cards) \<longrightarrow> isComplete s)"

text \<open>
  The invariant that \<open>useFlashcards\<close> keeps. At the end of a deck with at least one card
  the session is complete or a completion handler is under way, which will set
  \<open>isComplete\<close>. One more fact makes the invariant inductive: in the random study mode
  \<open>getNextCardIndex\<close> never returns \<open>null\<close> on a deck of two or more cards, so such a session
  does not reach the end.
\<close>

definition ufInvariant :: "HookProps \<Rightarrow> Flashcards \<Rightarrow> bool" where
  "ufInvariant props h \<longleftrightarrow>
     0 \<le> currentCardIndex (hk_state h) \<and>
     currentCardIndex (hk_state h) \<le> int (length (deck_cards props)) \<and>
     (isComplete (hk_state h) \<longrightarrow>
        currentCardIndex (hk_state h) = int (length (deck_cards props))) \<and>
     (deck_cards props \<noteq> [] \<longrightarrow>
        currentCardIndex (hk_state h) = int (length (deck_cards props)) \<longrightarrow>
        isComplete (hk_state h) \<or> hk_completions h \<noteq> []) \<and>
     (studyMode props = Random \<and> length (deck_cards props) > 1 \<longrightarrow>
        currentCardIndex (hk_state h) < int (length (deck_cards props)))"

section \<open>Properties of the gesture recognisers\<close>

text \<open>
  The classification of a drag as the specification words it (distance or velocity
  beyond its threshold, and \<open>|\<Delta>y| \<le> 0.7 |\<Delta>x|\<close>), with the hook's thresholds; and what it
  means for a recogniser to have classified a drag as a swipe.
\<close>

definition spec_isSwipe :: "real \<Rightarrow> PanEvent \<Rightarrow> bool" where
  "spec_isSwipe SCREEN_WIDTH event \<longleftrightarrow>
     (\<bar>translationX event\<bar> > SWIPE_THRESHOLD SCREEN_WIDTH \<or>
      \<bar>velocityX event\<bar> > SWIPE_VELOCITY_THRESHOLD) \<and>
     \<bar>translationY event\<bar> \<le> 0.7 * \<bar>translationX event\<bar>"

definition isSwipe :: "GestureOutcome \<Rightarrow> bool" where
  "isSwipe outcome \<longleftrightarrow> outcome = CallSwipeLeft \<or> outcome = CallSwipeRight"

text \<open>Decks for concrete runs.\<close>

definition sampleCard :: Flashcard where
  "sampleCard = \<lparr>card_id = ''c'', title = ''t'', question = ''q'', explanation = ''e''\<rparr>"

definition sampleDeck :: "nat \<Rightarrow> Flashcard list" where
  "sampleDeck n = replicate n sampleCard"

definition sampleProps :: "StudyMode \<Rightarrow> HookProps" where
  "sampleProps m =
     \<lparr>deck_id = ''deck'', deck_cards = sampleDeck 3, studyMode = m, autoSave = True\<rparr>"

section \<open>Theorems\<close>

subsection \<open>Rounding to a double\<close>

lemma rte_bounds:
  "\<bar>real_of_int (roundTiesToEven y) - y\<bar> \<le> 1 / 2"
  unfolding roundTiesToEven_def Let_def
  by (auto; linarith)

lemma rte_int [simp]: "roundTiesToEven (real_of_int n) = n"
  by (simp add: roundTiesToEven_def)

lemma rte_eval:
  assumes "real_of_int n - 1 / 2 < y" "y < real_of_int n + 1 / 2"
  shows "roundTiesToEven y = n"
proof -
  have "\<bar>real_of_int (roundTiesToEven y) - y\<bar> \<le> 1 / 2" by (rule rte_bounds)
  with assms have "\<bar>real_of_int (roundTiesToEven y) - real_of_int n\<bar> < 1" by linarith
  then have "\<bar>roundTiesToEven y - n\<bar> < 1" by linarith
  then show ?thesis by linarith
qed

lemma rte_mono:
  assumes "y \<le> z"
  shows "roundTiesToEven y \<le> roundTiesToEven z"
proof (rule ccontr)
  assume "\<not> roundTiesToEven y \<le> roundTiesToEven z"
  then have gt: "roundTiesToEven z + 1 \<le> roundTiesToEven y" by simp
  have b1: "\<bar>real_of_int (roundTiesToEven y) - y\<bar> \<le> 1 / 2" by (rule rte_bounds)
  have b2: "\<bar>real_of_int (roundTiesToEven z) - z\<bar> \<le> 1 / 2" by (rule rte_bounds)
  from gt have "real_of_int (roundTiesToEven z) + 1 \<le> real_of_int (roundTiesToEven y)"
    by linarith
  with b1 b2 assms have "y = z" by linarith
  with gt show False by simp
qed

lemma powr2: "(2::real) powr real_of_int k = 2 powi k"
  by (rule powr_real_of_int') simp_all

lemma pos2 [simp]: "(0::real) < 2 powi k"
  by simp

lemma floor_log2_bounds:
  assumes "x \<noteq> 0"
  shows "2 powi \<lfloor>log 2 \<bar>x\<bar>\<rfloor> \<le> \<bar>x\<bar> \<and> \<bar>x\<bar> < 2 powi (\<lfloor>log 2 \<bar>x\<bar>\<rfloor> + 1)"
proof -
  from assms have "0 < \<bar>x\<bar>" by simp
  from floor_log_eq_powr_iff [OF this, of 2 "\<lfloor>log 2 \<bar>x\<bar>\<rfloor>", unfolded powr2]
  show ?thesis by simp
qed

lemma floor_log2_eq:
  assumes "2 powi k \<le> \<bar>x\<bar>" "\<bar>x\<bar> < 2 powi (k + 1)"
  shows "\<lfloor>log 2 \<bar>x\<bar>\<rfloor> = k"
proof -
  have "(0::real) < 2 powi k" by simp
  with assms(1) have "0 < \<bar>x\<bar>" by linarith
  from floor_log_eq_powr_iff [OF this, of 2 k, unfolded powr2] assms show ?thesis
    by simp
qed

lemma binade_eq:
  assumes "2 powi k \<le> \<bar>x\<bar>" "\<bar>x\<bar> < 2 powi (k + 1)" "- 1022 \<le> k"
  shows "binade x = k"
  using floor_log2_eq [OF assms(1,2)] assms(3) by (simp add: binade_def)

lemma double_eqI:
  assumes "2 powi k \<le> \<bar>x\<bar>" "\<bar>x\<bar> < 2 powi (k + 1)" "- 1022 \<le> k"
    and "real_of_int n - 1 / 2 < x / 2 powi (k - 52)"
    and "x / 2 powi (k - 52) < real_of_int n + 1 / 2"
  shows "double x = real_of_int n * 2 powi (k - 52)"
proof -
  have "x \<noteq> 0"
  proof
    assume "x = 0"
    with assms(1) have "(2::real) powi k \<le> 0" by simp
    moreover have "(0::real) < 2 powi k" by (rule pos2)
    ultimately show False by linarith
  qed
  then show ?thesis
    by (simp add: double_def binade_eq [OF assms(1-3)] rte_eval [OF assms(4,5)])
qed

lemma double_exactI:
  assumes "2 powi k \<le> \<bar>x\<bar>" "\<bar>x\<bar> < 2 powi (k + 1)" "- 1022 \<le> k"
    and "x / 2 powi (k - 52) = real_of_int n"
  shows "double x = x"
proof -
  have p: "(0::real) < 2 powi (k - 52)" by simp
  from assms(4) have "real_of_int n * 2 powi (k - 52) = x" using p by (simp add: field_simps)
  moreover have "double x = real_of_int n * 2 powi (k - 52)"
    by (rule double_eqI [OF assms(1-3)]) (simp_all add: assms(4))
  ultimately show ?thesis by simp
qed

lemma double_0 [simp]: "double 0 = 0"
  by (simp add: double_def)

lemma double_nonneg:
  assumes "0 \<le> x"
  shows "0 \<le> double x"
proof (cases "x = 0")
  case False
  have p: "(0::real) < 2 powi (binade x - 52)" by simp
  with assms have "0 \<le> x / 2 powi (binade x - 52)" by simp
  from rte_mono [OF this] have "0 \<le> roundTiesToEven (x / 2 powi (binade x - 52))"
    using rte_int [of 0] by simp
  with p False show ?thesis by (simp add: double_def)
qed simp

lemma binade_ge: "\<lfloor>log 2 \<bar>x\<bar>\<rfloor> \<le> binade x"
  by (simp add: binade_def)

lemma pow53: "(2::real) powi (b + 1) / 2 powi (b - 52) = real_of_int (2 ^ 53)"
proof -
  have "b + 1 = (b - 52) + 53" by simp
  then have "(2::real) powi (b + 1) = 2 powi ((b - 52) + 53)" by (simp only:)
  also have "\<dots> = 2 powi (b - 52) * 2 powi 53" by (rule power_int_add) simp
  finally show ?thesis by simp
qed

lemma pow52: "(2::real) powi b / 2 powi (b - 52) = real_of_int (2 ^ 52)"
proof -
  have "b = (b - 52) + 52" by simp
  then have "(2::real) powi b = 2 powi ((b - 52) + 52)" by (simp only:)
  also have "\<dots> = 2 powi (b - 52) * 2 powi 52" by (rule power_int_add) simp
  finally show ?thesis by simp
qed

lemma double_upper:
  assumes "0 < x"
  shows "double x \<le> 2 powi (binade x + 1)"
proof -
  let ?b = "binade x"
  let ?u = "(2::real) powi (?b - 52)"
  have u: "0 < ?u" by simp
  from assms have x0: "x \<noteq> 0" by simp
  from floor_log2_bounds [OF x0] assms have "x < 2 powi (\<lfloor>log 2 \<bar>x\<bar>\<rfloor> + 1)" by simp
  also have "\<dots> \<le> 2 powi (?b + 1)"
    by (rule power_int_increasing) (simp_all add: binade_ge)
  finally have "x / ?u \<le> 2 powi (?b + 1) / ?u" using u by (simp add: divide_right_mono)
  then have "x / ?u \<le> real_of_int (2 ^ 53)" by (simp only: pow53)
  from rte_mono [OF this] have "roundTiesToEven (x / ?u) \<le> 2 ^ 53" by (simp only: rte_int)
  then have "real_of_int (roundTiesToEven (x / ?u)) \<le> real_of_int (2 ^ 53)" by linarith
  then have "real_of_int (roundTiesToEven (x / ?u)) * ?u \<le> real_of_int (2 ^ 53) * ?u"
    using u by (simp only: mult_le_cancel_right_pos)
  also have "real_of_int (2 ^ 53) * ?u = 2 powi (?b + 1)"
    using pow53 [of ?b] u by (simp add: field_simps)
  finally show ?thesis using x0 by (simp add: double_def)
qed

lemma double_lower:
  assumes "0 < x" "binade x = \<lfloor>log 2 \<bar>x\<bar>\<rfloor>"
  shows "2 powi (binade x) \<le> double x"
proof -
  let ?b = "binade x"
  let ?u = "(2::real) powi (?b - 52)"
  have u: "0 < ?u" by simp
  from assms have x0: "x \<noteq> 0" by simp
  from floor_log2_bounds [OF x0] assms have "2 powi ?b \<le> x" by simp
  then have "2 powi ?b / ?u \<le> x / ?u" using u by (simp add: divide_right_mono)
  then have "real_of_int (2 ^ 52) \<le> x / ?u" by (simp only: pow52)
  from rte_mono [OF this] have "2 ^ 52 \<le> roundTiesToEven (x / ?u)" by (simp only: rte_int)
  then have "real_of_int (2 ^ 52) \<le> real_of_int (roundTiesToEven (x / ?u))" by linarith
  then have "real_of_int (2 ^ 52) * ?u \<le> real_of_int (roundTiesToEven (x / ?u)) * ?u"
    using u by (simp only: mult_le_cancel_right_pos)
  moreover have "real_of_int (2 ^ 52) * ?u = 2 powi ?b"
    using pow52 [of ?b] u by (simp add: field_simps)
  ultimately have "2 powi ?b \<le> real_of_int (roundTiesToEven (x / ?u)) * ?u" by (simp only:)
  then show ?thesis using x0 by (simp add: double_def)
qed

lemma binade_mono:
  assumes "0 < x" "x \<le> y"
  shows "binade x \<le> binade y"
proof -
  have "log 2 \<bar>x\<bar> \<le> log 2 \<bar>y\<bar>" using assms by (simp add: log_mono)
  then have "\<lfloor>log 2 \<bar>x\<bar>\<rfloor> \<le> \<lfloor>log 2 \<bar>y\<bar>\<rfloor>" by (rule floor_mono)
  then show ?thesis by (simp add: binade_def)
qed

lemma double_mono_pos:
  assumes "0 < x" "x \<le> y"
  shows "double x \<le> double y"
proof (cases "binade x = binade y")
  case True
  let ?u = "(2::real) powi (binade y - 52)"
  have u: "0 < ?u" by simp
  from assms(2) u have "x / ?u \<le> y / ?u" by (simp add: divide_right_mono)
  from rte_mono [OF this]
  have "real_of_int (roundTiesToEven (x / ?u)) \<le> real_of_int (roundTiesToEven (y / ?u))"
    by linarith
  then have "real_of_int (roundTiesToEven (x / ?u)) * ?u
      \<le> real_of_int (roundTiesToEven (y / ?u)) * ?u"
    using u by (simp only: mult_le_cancel_right_pos)
  then show ?thesis using assms True by (simp add: double_def)
next
  case False
  with binade_mono [OF assms] have lt: "binade x < binade y" by simp
  have "- 1022 \<le> binade x" by (simp add: binade_def)
  with lt have n: "binade y = \<lfloor>log 2 \<bar>y\<bar>\<rfloor>" by (simp add: binade_def max_def split: if_splits)
  from assms have y: "0 < y" by simp
  have "double x \<le> 2 powi (binade x + 1)" using assms(1) by (rule double_upper)
  also have "\<dots> \<le> 2 powi (binade y)"
    by (rule power_int_increasing) (use lt in simp_all)
  also have "\<dots> \<le> double y" using y n by (rule double_lower)
  finally show ?thesis .
qed

lemma double_mono_nonneg:
  assumes "0 \<le> x" "x \<le> y"
  shows "double x \<le> double y"
proof (cases "x = 0")
  case True
  with assms double_nonneg [of y] show ?thesis by simp
next
  case False
  with assms have "0 < x" by simp
  then show ?thesis using assms(2) by (rule double_mono_pos)
qed

lemma double_error:
  "\<bar>double x - x\<bar> \<le> 2 powi (binade x - 53)"
proof (cases "x = 0")
  case True
  then show ?thesis by (simp add: zero_less_power_int less_imp_le)
next
  case False
  let ?u = "(2::real) powi (binade x - 52)"
  have u: "0 < ?u" by simp
  have "double x - x = (real_of_int (roundTiesToEven (x / ?u)) - x / ?u) * ?u"
    using False u by (simp add: double_def field_simps)
  then have "\<bar>double x - x\<bar> = \<bar>real_of_int (roundTiesToEven (x / ?u)) - x / ?u\<bar> * ?u"
    using u by (simp add: abs_mult)
  also have "\<dots> \<le> (1 / 2) * ?u"
    using rte_bounds [of "x / ?u"] u by (simp only: mult_le_cancel_right_pos)
  also have "(1 / 2) * ?u = 2 powi (binade x - 53)"
    using power_int_add [of "2::real" "binade x - 53" 1] by simp
  finally show ?thesis .
qed

lemma binade_le:
  assumes "x \<noteq> 0" "\<bar>x\<bar> < 2 powi (k + 1)" "- 1022 \<le> k"
  shows "binade x \<le> k"
proof -
  from floor_log2_bounds [OF assms(1)] assms(2)
  have "(2::real) powi \<lfloor>log 2 \<bar>x\<bar>\<rfloor> < 2 powi (k + 1)" by linarith
  then have "\<lfloor>log 2 \<bar>x\<bar>\<rfloor> < k + 1"
    by (metis not_le power_int_increasing one_le_numeral)
  then show ?thesis using assms(3) by (simp add: binade_def)
qed

lemma double_1: "double 1 = 1"
  by (rule double_exactI [where k = 0 and n = "2 ^ 52"]) simp_all

lemma double_100: "double 100 = 100"
  by (rule double_exactI [where k = 6 and n = "100 * 2 ^ 46"]) simp_all

lemma double_relative_error:
  assumes "2 powi (- 1022) \<le> x"
  shows "\<bar>double x - x\<bar> \<le> x / 2 ^ 53"
proof -
  have p: "(0::real) < 2 powi (- 1022)" by (rule pos2)
  with assms have x: "0 < x" "x \<noteq> 0" by linarith+
  have "(2::real) powi (- 1022) \<le> \<bar>x\<bar>" using assms x by simp
  also have "\<bar>x\<bar> < 2 powi (\<lfloor>log 2 \<bar>x\<bar>\<rfloor> + 1)" using floor_log2_bounds [OF x(2)] by simp
  finally have "- 1022 < \<lfloor>log 2 \<bar>x\<bar>\<rfloor> + 1"
    by (metis not_le power_int_increasing one_le_numeral less_le_not_le)
  then have b: "binade x = \<lfloor>log 2 \<bar>x\<bar>\<rfloor>" by (simp add: binade_def)
  have "2 powi (binade x) \<le> x" using floor_log2_bounds [OF x(2)] x(1) b by simp
  moreover have "(2::real) powi (binade x - 53) = 2 powi (binade x) / 2 ^ 53"
    using power_int_diff [of "2::real" "binade x" 53] by simp
  ultimately have "(2::real) powi (binade x - 53) \<le> x / 2 ^ 53"
    by (simp add: divide_right_mono)
  with double_error [of x] show ?thesis by linarith
qed

lemma double_below:
  assumes "0 \<le> x" "x \<le> n * (1 - 1 / 2 ^ 53)" "1 \<le> n"
  shows "double x < n"
proof (cases "2 powi (- 1022) \<le> x")
  case True
  have p: "(0::real) < 2 powi (- 1022)" by (rule pos2)
  with True have x: "0 < x" by linarith
  define e :: real where "e = 1 / 2 ^ 53"
  have e: "0 < e" by (simp add: e_def)
  from double_relative_error [OF True] have "double x \<le> x + x / 2 ^ 53" by linarith
  then have "double x \<le> x + x * e" by (simp only: e_def times_divide_eq_right mult_1_right)
  also have "x + x * e = x * (1 + e)" by (simp only: distrib_left mult_1_right)
  also have "\<dots> \<le> (n * (1 - e)) * (1 + e)"
    using assms(2) e by (intro mult_right_mono) (simp_all add: e_def)
  also have "\<dots> = n - n * (e * e)" by (simp only: algebra_simps)
  also have "\<dots> < n" using assms(3) e by simp
  finally show ?thesis .
next
  case False
  then have lt: "x < 2 powi (- 1022)" by simp
  show ?thesis
  proof (cases "x = 0")
    case True
    with assms(3) show ?thesis by simp
  next
    case False
    with assms(1) have x: "0 < x" by simp
    have "\<lfloor>log 2 \<bar>x\<bar>\<rfloor> < - 1022"
    proof (rule ccontr)
      assume "\<not> \<lfloor>log 2 \<bar>x\<bar>\<rfloor> < - 1022"
      then have "(2::real) powi (- 1022) \<le> 2 powi \<lfloor>log 2 \<bar>x\<bar>\<rfloor>"
        by (intro power_int_increasing) simp_all
      with floor_log2_bounds [OF False] x lt show False by simp
    qed
    then have b: "binade x = - 1022" by (simp add: binade_def)
    from double_upper [OF x] have "double x \<le> 2 powi (- 1021)" by (simp add: b)
    also have "(2::real) powi (- 1021) < 1" by (simp add: power_int_minus inverse_eq_divide)
    finally show ?thesis using assms(3) by simp
  qed
qed

subsection \<open>Percentages\<close>

lemma Math_round_mono: "x \<le> y \<Longrightarrow> Math_round x \<le> Math_round y"
  by (simp add: Math_round_def floor_mono)

lemma percent_range:
  assumes "0 \<le> x" "x \<le> y" "0 < y"
  shows "0 \<le> js_mul (js_div x y) 100 \<and> js_mul (js_div x y) 100 \<le> 100"
proof -
  have q: "0 \<le> x / y" "x / y \<le> 1" using assms by simp_all
  have d0: "0 \<le> double (x / y)" using q(1) by (rule double_nonneg)
  have "double (x / y) \<le> double 1" using q by (rule double_mono_nonneg)
  then have d1: "double (x / y) \<le> 1" by (simp only: double_1)
  have p: "0 \<le> double (x / y) * 100" "double (x / y) * 100 \<le> 100" using d0 d1 by simp_all
  have "0 \<le> double (double (x / y) * 100)" using p(1) by (rule double_nonneg)
  moreover have "double (double (x / y) * 100) \<le> double 100"
    using p by (rule double_mono_nonneg)
  ultimately show ?thesis by (simp add: js_mul_def js_div_def double_100)
qed

lemma percent_mono:
  assumes "0 \<le> x" "x \<le> x'" "0 < y"
  shows "js_mul (js_div x y) 100 \<le> js_mul (js_div x' y) 100"
proof -
  have q: "0 \<le> x / y" "x / y \<le> x' / y" using assms by (simp_all add: divide_right_mono)
  have d0: "0 \<le> double (x / y)" using q(1) by (rule double_nonneg)
  have "double (x / y) \<le> double (x' / y)" using q by (rule double_mono_nonneg)
  then have "double (x / y) * 100 \<le> double (x' / y) * 100" by simp
  moreover have "0 \<le> double (x / y) * 100" using d0 by simp
  ultimately have "double (double (x / y) * 100) \<le> double (double (x' / y) * 100)"
    by (rule double_mono_nonneg [rotated])
  then show ?thesis by (simp add: js_mul_def js_div_def)
qed

lemma percent_error:
  assumes "0 \<le> x" "x \<le> y" "0 < y"
  shows "\<bar>js_mul (js_div x y) 100 - x / y * 100\<bar> \<le> 1 / 2 ^ 45"
proof -
  define q where "q = x / y"
  define q' where "q' = double q"
  define p where "p = q' * 100"
  have q: "0 \<le> q" "q \<le> 1" using assms by (simp_all add: q_def)
  have q'0: "0 \<le> q'" unfolding q'_def using q(1) by (rule double_nonneg)
  have "q' \<le> double 1" unfolding q'_def using q by (rule double_mono_nonneg)
  then have q'1: "q' \<le> 1" by (simp only: double_1)
  have e1: "\<bar>q' - q\<bar> \<le> 1 / 2 ^ 53"
  proof (cases "q = 0")
    case True
    then show ?thesis by (simp add: q'_def)
  next
    case False
    have "binade q \<le> 0" using False q by (intro binade_le) simp_all
    then have "(2::real) powi (binade q - 53) \<le> 2 powi (- 53)"
      by (intro power_int_increasing) simp_all
    also have "(2::real) powi (- 53) = 1 / 2 ^ 53"
      by (simp add: power_int_minus inverse_eq_divide)
    finally show ?thesis using double_error [of q] by (simp add: q'_def)
  qed
  have p: "0 \<le> p" "p \<le> 100" using q'0 q'1 by (simp_all add: p_def)
  have e2: "\<bar>double p - p\<bar> \<le> 1 / 2 ^ 47"
  proof (cases "p = 0")
    case True
    then show ?thesis by simp
  next
    case False
    have "binade p \<le> 6" using False p by (intro binade_le) simp_all
    then have "(2::real) powi (binade p - 53) \<le> 2 powi (- 47)"
      by (intro power_int_increasing) simp_all
    also have "(2::real) powi (- 47) = 1 / 2 ^ 47"
      by (simp add: power_int_minus inverse_eq_divide)
    finally show ?thesis using double_error [of p] by simp
  qed
  have "p - q * 100 = (q' - q) * 100" by (simp only: p_def left_diff_distrib)
  then have "\<bar>p - q * 100\<bar> = \<bar>q' - q\<bar> * \<bar>100\<bar>" by (simp only: abs_mult)
  then have "\<bar>p - q * 100\<bar> = \<bar>q' - q\<bar> * 100" by simp
  with e1 have e3: "\<bar>p - q * 100\<bar> \<le> 100 / 2 ^ 53" by simp
  have "\<bar>double p - q * 100\<bar> \<le> \<bar>double p - p\<bar> + \<bar>p - q * 100\<bar>" by linarith
  also have "\<dots> \<le> 1 / 2 ^ 47 + 100 / 2 ^ 53" using e2 e3 by linarith
  also have "\<dots> \<le> 1 / 2 ^ 45" by simp
  finally show ?thesis by (simp add: js_mul_def js_div_def p_def q'_def q_def)
qed

lemma Math_round_error: "\<bar>real_of_int (Math_round x) - x\<bar> \<le> 1 / 2"
  unfolding Math_round_def by linarith

lemma calculateProgress_mono:
  assumes "0 \<le> i" "i \<le> j" "0 \<le> n"
  shows "calculateProgress i n \<le> calculateProgress j n"
proof (cases "n = 0")
  case True
  then show ?thesis by (simp add: calculateProgress_def)
next
  case False
  with assms(3) have "0 < real_of_int n" by simp
  from percent_mono [OF _ _ this, of "real_of_int i" "real_of_int j"] assms(1,2)
  show ?thesis using False by (simp add: calculateProgress_def Math_round_mono)
qed

lemma calculateProgress_0: "calculateProgress 0 n = 0"
  by (simp add: calculateProgress_def js_div_def js_mul_def Math_round_def)

lemma calculateProgress_full: "n \<noteq> 0 \<Longrightarrow> calculateProgress n n = 100"
  by (simp add: calculateProgress_def js_div_def js_mul_def Math_round_def double_1 double_100)

lemma calculateProgress_range:
  assumes "0 \<le> i" "i \<le> n"
  shows "0 \<le> calculateProgress i n \<and> calculateProgress i n \<le> 100"
proof (cases "n = 0")
  case True
  then show ?thesis by (simp add: calculateProgress_def)
next
  case False
  with assms have n: "0 \<le> n" by simp
  from calculateProgress_mono [of 0 i n] calculateProgress_mono [of i n n] assms n
    calculateProgress_0 [of n] calculateProgress_full [OF False]
  show ?thesis by simp
qed

lemma calculateProgress_error:
  assumes "0 \<le> i" "i \<le> n" "0 < n"
  shows "\<bar>real_of_int (calculateProgress i n) - real_of_int i / real_of_int n * 100\<bar>
           \<le> 1 / 2 + 1 / 2 ^ 45"
proof -
  have e: "\<bar>js_mul (js_div (real_of_int i) (real_of_int n)) 100
             - real_of_int i / real_of_int n * 100\<bar> \<le> 1 / 2 ^ 45"
    using assms by (intro percent_error) simp_all
  have c: "calculateProgress i n = Math_round (js_mul (js_div (real_of_int i) (real_of_int n)) 100)"
    using assms(3) by (simp add: calculateProgress_def)
  from Math_round_error [of "js_mul (js_div (real_of_int i) (real_of_int n)) 100"] e
  show ?thesis unfolding c by linarith
qed

subsection \<open>Values of some quotients and products\<close>

lemma js_div_23_40: "js_div 23 40 = 2589569785738035 / 4503599627370496"
  unfolding js_div_def
  using double_eqI [where x = "23 / 40" and k = "- 1" and n = 5179139571476070]
  by simp

lemma js_mul_23_40_100: "js_mul (2589569785738035 / 4503599627370496) 100 = 8092405580431359 / 140737488355328"
  unfolding js_mul_def
  using double_eqI [where x = "(2589569785738035 / 4503599627370496) * 100" and k = "5" and n = 8092405580431359]
  by simp

lemma js_div_1_3: "js_div 1 3 = 6004799503160661 / 18014398509481984"
  unfolding js_div_def
  using double_eqI [where x = "1 / 3" and k = "- 2" and n = 6004799503160661]
  by simp

lemma js_mul_1_3_100: "js_mul (6004799503160661 / 18014398509481984) 100 = 2345624805922133 / 70368744177664"
  unfolding js_mul_def
  using double_eqI [where x = "(6004799503160661 / 18014398509481984) * 100" and k = "5" and n = 4691249611844266]
  by simp

lemma js_div_2_3: "js_div 2 3 = 6004799503160661 / 9007199254740992"
  unfolding js_div_def
  using double_eqI [where x = "2 / 3" and k = "- 1" and n = 6004799503160661]
  by simp

lemma js_mul_2_3_100: "js_mul (6004799503160661 / 9007199254740992) 100 = 2345624805922133 / 35184372088832"
  unfolding js_mul_def
  using double_eqI [where x = "(6004799503160661 / 9007199254740992) * 100" and k = "6" and n = 4691249611844266]
  by simp

lemma js_div_29_200: "js_div 29 200 = 5224175567749775 / 36028797018963968"
  unfolding js_div_def
  using double_eqI [where x = "29 / 200" and k = "- 3" and n = 5224175567749775]
  by simp

lemma js_mul_29_200_100: "js_mul (5224175567749775 / 36028797018963968) 100 = 8162774324609023 / 562949953421312"
  unfolding js_mul_def
  using double_eqI [where x = "(5224175567749775 / 36028797018963968) * 100" and k = "3" and n = 8162774324609023]
  by simp

lemma js_div_3_4: "js_div 3 4 = 3 / 4"
  unfolding js_div_def
  using double_eqI [where x = "3 / 4" and k = "- 1" and n = 6755399441055744]
  by simp

lemma js_mul_3_4_100: "js_mul (3 / 4) 100 = 75"
  unfolding js_mul_def
  using double_eqI [where x = "(3 / 4) * 100" and k = "6" and n = 5277655813324800]
  by simp

subsection \<open>Quotients of integers\<close>

text \<open>
  A quotient of two integers below \<open>2^52\<close> keeps its place between the half-integers when
  it is rounded to a double: a half-integer of that size is a double, and the quotient
  is further from the next one than the rounding moves it. So \<open>Math.round\<close> and
  \<open>Math.floor\<close> of the double quotient are those of the exact quotient. (A product by
  \<open>100\<close> in between, as in \<open>calculateProgress\<close>, breaks this.)
\<close>

lemma double_half_integer:
  assumes "0 \<le> c" "c < 2 ^ 53"
  shows "double (real_of_int c / 2) = real_of_int c / 2"
proof (cases "c = 0")
  case True
  then show ?thesis by simp
next
  case False
  define x where "x = real_of_int c / 2"
  define k where "k = \<lfloor>log 2 \<bar>x\<bar>\<rfloor>"
  from False assms(1) have c1: "1 \<le> c" by simp
  then have xl: "1 / 2 \<le> x" by (simp add: x_def)
  from assms(2) have "real_of_int c < 2 ^ 53" by (metis of_int_less_numeral_power_cancel_iff)
  then have xu: "x < 2 ^ 52" by (simp add: x_def)
  have x0: "x \<noteq> 0" using xl by simp
  have ax: "\<bar>x\<bar> = x" using xl by simp
  from floor_log2_bounds [OF x0]
  have b: "2 powi k \<le> \<bar>x\<bar>" "\<bar>x\<bar> < 2 powi (k + 1)" by (simp_all add: k_def)
  have kl: "- 1 \<le> k"
  proof (rule ccontr)
    assume "\<not> - 1 \<le> k"
    then have "k + 1 \<le> - 1" by simp
    then have "(2::real) powi (k + 1) \<le> 2 powi (- 1)" by (intro power_int_increasing) simp_all
    also have "(2::real) powi (- 1) = 1 / 2" by (simp add: power_int_minus)
    finally show False using b(2) xl ax by linarith
  qed
  have ku: "k \<le> 51"
  proof (rule ccontr)
    assume "\<not> k \<le> 51"
    then have "52 \<le> k" by simp
    then have "(2::real) powi 52 \<le> 2 powi k" by (intro power_int_increasing) simp_all
    moreover have "(2::real) powi 52 = 2 ^ 52" by simp
    ultimately show False using b(1) xu ax by linarith
  qed
  have e: "(2::real) powi (51 - k) * 2 powi (k - 52) = 1 / 2"
    using power_int_add [of "2::real" "51 - k" "k - 52"] by (simp add: power_int_minus)
  have "real_of_int c * 2 powi (51 - k)
      = (real_of_int c * (2 powi (51 - k) * 2 powi (k - 52))) / 2 powi (k - 52)" by simp
  also have "\<dots> = x / 2 powi (k - 52)" by (simp add: e x_def)
  finally have q: "x / 2 powi (k - 52) = real_of_int c * 2 powi (51 - k)" by simp
  have "(2::real) powi (51 - k) = 2 ^ nat (51 - k)" using ku by (simp add: power_int_def)
  with q have nq: "x / 2 powi (k - 52) = real_of_int (c * 2 ^ nat (51 - k))" by simp
  from kl have "- 1022 \<le> k" by simp
  with b have "double x = x" using nq by (rule double_exactI)
  then show ?thesis by (simp only: x_def)
qed

lemma double_quotient_grid:
  assumes a: "0 \<le> a" "a < 2 ^ 52" and n: "0 < n" "n \<le> 2 ^ 52"
    and c: "0 \<le> c" "real_of_int c / 2 \<le> real_of_int a / real_of_int n"
      "real_of_int a / real_of_int n < (real_of_int c + 1) / 2"
  shows "real_of_int c / 2 \<le> double (real_of_int a / real_of_int n) \<and>
         double (real_of_int a / real_of_int n) < (real_of_int c + 1) / 2"
proof -
  define q where "q = real_of_int a / real_of_int n"
  have rn: "1 \<le> real_of_int n" using n(1) by simp
  have ra: "0 \<le> real_of_int a" using a(1) by simp
  have ra2: "real_of_int a < 2 ^ 52" using a(2) by (metis of_int_less_numeral_power_cancel_iff)
  have rn2: "real_of_int n \<le> 2 ^ 52" using n(2) by (metis of_int_le_numeral_power_cancel_iff)
  have qa: "q \<le> real_of_int a" unfolding q_def using rn ra
    by (simp add: divide_le_eq mult_le_cancel_left1)
  have q0: "0 \<le> q" unfolding q_def using rn ra by simp
  have "(2::real) ^ 53 = 2 * 2 ^ 52" by simp
  with c(2) qa ra2 have "real_of_int c < 2 ^ 53" unfolding q_def by linarith
  then have c53: "c < 2 ^ 53" by (metis of_int_less_numeral_power_cancel_iff)
  have rc: "0 \<le> real_of_int c / 2" using c(1) by simp
  have lower: "real_of_int c / 2 \<le> double q"
    using double_mono_nonneg [OF rc c(2)] double_half_integer [OF c(1) c53]
    by (simp add: q_def)
  have upper: "double q < (real_of_int c + 1) / 2"
  proof (cases "a = 0")
    case True
    then show ?thesis using c(1) by (simp add: q_def)
  next
    case False
    with a(1) have a1: "1 \<le> real_of_int a" by simp
    have "1 / 2 ^ 52 \<le> 1 / real_of_int n" using rn rn2 by (simp add: frac_le)
    also have "1 / real_of_int n \<le> q" unfolding q_def using a1 rn by (simp add: divide_right_mono)
    finally have ql: "1 / 2 ^ 52 \<le> q" .
    have "(2::real) powi (- 1022) \<le> 2 powi (- 52)" by (intro power_int_increasing) simp_all
    also have "(2::real) powi (- 52) = 1 / 2 ^ 52" by (simp add: power_int_minus inverse_eq_divide)
    finally have "2 powi (- 1022) \<le> q" using ql by linarith
    then have err: "\<bar>double q - q\<bar> \<le> q / 2 ^ 53" by (rule double_relative_error)
    from c(3) have "real_of_int a * 2 < (real_of_int c + 1) * real_of_int n"
      using rn by (simp add: field_simps)
    then have "real_of_int (a * 2) < real_of_int ((c + 1) * n)" by simp
    then have "a * 2 < (c + 1) * n" by (simp only: of_int_less_iff)
    then have "a * 2 + 1 \<le> (c + 1) * n" by simp
    then have "real_of_int (a * 2 + 1) \<le> real_of_int ((c + 1) * n)" by (simp only: of_int_le_iff)
    then have i: "real_of_int a * 2 + 1 \<le> (real_of_int c + 1) * real_of_int n" by simp
    have gap: "q + 1 / (2 * real_of_int n) \<le> (real_of_int c + 1) / 2"
      unfolding q_def using i rn by (simp add: field_simps)
    have "q / 2 ^ 53 = real_of_int a / 2 ^ 52 * (1 / (2 * real_of_int n))"
      by (simp add: q_def)
    also have "\<dots> < 1 * (1 / (2 * real_of_int n))"
      using ra2 rn by (intro mult_strict_right_mono) simp_all
    finally have "q / 2 ^ 53 < 1 / (2 * real_of_int n)" by simp
    with err gap show ?thesis by linarith
  qed
  from lower upper show ?thesis by (simp only: q_def)
qed

lemma Math_round_on_grid:
  assumes "real_of_int c / 2 \<le> x" "x < (real_of_int c + 1) / 2"
  shows "Math_round x = (c + 1) div 2"
proof (cases "even c")
  case True
  then obtain j where j: "c = 2 * j" by (auto elim: evenE)
  from assms have "real_of_int j \<le> x + 1 / 2" "x + 1 / 2 < real_of_int j + 1"
    by (simp_all add: j)
  then have "\<lfloor>x + 1 / 2\<rfloor> = j" by linarith
  then show ?thesis by (simp add: Math_round_def j)
next
  case False
  then obtain j where j: "c = 2 * j + 1" by (auto elim: oddE)
  from assms have "real_of_int (j + 1) \<le> x + 1 / 2" "x + 1 / 2 < real_of_int (j + 1) + 1"
    by (simp_all add: j)
  then have "\<lfloor>x + 1 / 2\<rfloor> = j + 1" by linarith
  then show ?thesis by (simp add: Math_round_def j)
qed

lemma floor_on_grid:
  assumes "real_of_int c / 2 \<le> x" "x < (real_of_int c + 1) / 2"
  shows "\<lfloor>x\<rfloor> = c div 2"
proof (cases "even c")
  case True
  then obtain j where j: "c = 2 * j" by (auto elim: evenE)
  from assms have "real_of_int j \<le> x" "x < real_of_int j + 1"
    by (simp_all add: j)
  then have "\<lfloor>x\<rfloor> = j" by linarith
  then show ?thesis by (simp add: j)
next
  case False
  then obtain j where j: "c = 2 * j + 1" by (auto elim: oddE)
  from assms have "real_of_int j \<le> x" "x < real_of_int j + 1"
    by (simp_all add: j)
  then have "\<lfloor>x\<rfloor> = j" by linarith
  then show ?thesis by (simp add: j)
qed

lemma quotient_grid:
  assumes "0 \<le> a" "0 < n"
  shows "0 \<le> \<lfloor>2 * (real_of_int a / real_of_int n)\<rfloor> \<and>
         real_of_int \<lfloor>2 * (real_of_int a / real_of_int n)\<rfloor> / 2 \<le> real_of_int a / real_of_int n \<and>
         real_of_int a / real_of_int n < (real_of_int \<lfloor>2 * (real_of_int a / real_of_int n)\<rfloor> + 1) / 2"
proof -
  define y where "y = 2 * (real_of_int a / real_of_int n)"
  have "0 \<le> y" using assms by (simp add: y_def)
  then have "0 \<le> \<lfloor>y\<rfloor>" by simp
  moreover have "real_of_int \<lfloor>y\<rfloor> \<le> y" "y < real_of_int \<lfloor>y\<rfloor> + 1" by linarith+
  then have "real_of_int \<lfloor>y\<rfloor> / 2 \<le> y / 2" "y / 2 < (real_of_int \<lfloor>y\<rfloor> + 1) / 2"
    by simp_all
  moreover have "y / 2 = real_of_int a / real_of_int n" by (simp add: y_def)
  ultimately show ?thesis by (simp only: y_def [symmetric])
qed

lemma Math_round_js_div:
  assumes "0 \<le> a" "a < 2 ^ 52" "0 < n" "n \<le> 2 ^ 52"
  shows "Math_round (js_div (real_of_int a) (real_of_int n))
           = Math_round (real_of_int a / real_of_int n)"
proof -
  define c where "c = \<lfloor>2 * (real_of_int a / real_of_int n)\<rfloor>"
  from quotient_grid [OF assms(1,3)]
  have c: "0 \<le> c" "real_of_int c / 2 \<le> real_of_int a / real_of_int n"
    "real_of_int a / real_of_int n < (real_of_int c + 1) / 2"
    by (simp_all only: c_def)
  from double_quotient_grid [OF assms c]
  have "Math_round (double (real_of_int a / real_of_int n)) = (c + 1) div 2"
    by (intro Math_round_on_grid) simp_all
  moreover have "Math_round (real_of_int a / real_of_int n) = (c + 1) div 2"
    using c(2,3) by (rule Math_round_on_grid)
  ultimately show ?thesis by (simp add: js_div_def)
qed

lemma floor_js_div:
  assumes "0 \<le> a" "a < 2 ^ 52" "0 < n" "n \<le> 2 ^ 52"
  shows "\<lfloor>js_div (real_of_int a) (real_of_int n)\<rfloor> = a div n"
proof -
  define c where "c = \<lfloor>2 * (real_of_int a / real_of_int n)\<rfloor>"
  from quotient_grid [OF assms(1,3)]
  have c: "0 \<le> c" "real_of_int c / 2 \<le> real_of_int a / real_of_int n"
    "real_of_int a / real_of_int n < (real_of_int c + 1) / 2"
    by (simp_all only: c_def)
  from double_quotient_grid [OF assms c]
  have "\<lfloor>double (real_of_int a / real_of_int n)\<rfloor> = c div 2"
    by (intro floor_on_grid) simp_all
  moreover have "\<lfloor>real_of_int a / real_of_int n\<rfloor> = c div 2"
    using c(2,3) by (rule floor_on_grid)
  ultimately show ?thesis by (simp add: js_div_def floor_divide_of_int_eq)
qed

subsection \<open>Sample decks and calls from one render\<close>

lemma length_sampleDeck: "length (sampleDeck n) = n"
  by (simp add: sampleDeck_def)

text \<open>
  Calls queued from one and the same render share the guard of that render: on a
  three-card deck at index \<open>1\<close>, three \<open>nextCard\<close> calls from one render take the index to
  \<open>4\<close>. The theorems below are about \<open>step\<close>, that is, about calls made from successive
  renders.
\<close>

lemma nextCard_calls_from_one_render:
  "currentCardIndex
     (nextCard (sampleDeck 3)
        \<lparr>currentCardIndex = 1, isFlipped = False, isComplete = False, progress = js_mul (js_div 1 3) 100\<rparr>
        (nextCard (sampleDeck 3)
           \<lparr>currentCardIndex = 1, isFlipped = False, isComplete = False, progress = js_mul (js_div 1 3) 100\<rparr>
           (nextCard (sampleDeck 3)
              \<lparr>currentCardIndex = 1, isFlipped = False, isComplete = False, progress = js_mul (js_div 1 3) 100\<rparr>
              \<lparr>currentCardIndex = 1, isFlipped = False, isComplete = False,
               progress = js_mul (js_div 1 3) 100\<rparr>))) = 4"
  by (simp add: nextCard_def length_sampleDeck)

subsection \<open>Effects of \<open>useFlashcardState\<close>, field by field\<close>

lemma runEffects_index [simp]:
  "currentCardIndex (runEffects cards b s) = currentCardIndex s"
  by (simp add: runEffects_def completionEffect_def progressEffect_def)

lemma runEffects_isFlipped [simp]:
  "isFlipped (runEffects cards b s) = isFlipped s"
  by (simp add: runEffects_def completionEffect_def progressEffect_def)

lemma runEffects_isComplete:
  "isComplete (runEffects cards b s) \<longleftrightarrow>
     isComplete s \<or> (currentCardIndex s \<noteq> currentCardIndex b \<and>
                      currentCardIndex s \<ge> int (length cards) \<and> length cards > 0)"
  by (auto simp: runEffects_def completionEffect_def progressEffect_def)

lemma inv_mount: "sessionInvariant cards (mount cards)"
  by (simp add: sessionInvariant_def mount_def completionEffect_def progressEffect_def
      initialState_def)

lemma inv_flip:
  assumes "sessionInvariant cards s"
  shows "sessionInvariant cards (step cards FlipCard s)"
  using assms unfolding sessionInvariant_def step_def
  by (simp (no_asm_use) add: runEffects_isComplete flipCard_def)

lemma inv_next:
  assumes "sessionInvariant cards s"
  shows "sessionInvariant cards (step cards NextCard s)"
  using assms unfolding sessionInvariant_def step_def
  by (simp (no_asm_use) add: runEffects_isComplete nextCard_def) linarith

lemma inv_prev:
  assumes "sessionInvariant cards s"
  shows "sessionInvariant cards (step cards PreviousCard s)"
  using assms unfolding sessionInvariant_def step_def
  by (simp (no_asm_use) add: runEffects_isComplete previousCard_def) linarith

lemma inv_goto:
  assumes "sessionInvariant cards s"
  shows "sessionInvariant cards (step cards (GoToCard i) s)"
  using assms unfolding sessionInvariant_def step_def
  by (simp (no_asm_use) add: runEffects_isComplete goToCard_def) linarith

lemma inv_reset:
  assumes "sessionInvariant cards s"
  shows "sessionInvariant cards (step cards ResetDeck s)"
  using assms unfolding sessionInvariant_def step_def
  by (simp (no_asm_use) add: runEffects_isComplete resetDeck_def initialState_def)

lemma inv_step:
  "sessionInvariant cards s \<Longrightarrow> sessionInvariant cards (step cards a s)"
  by (cases a) (simp_all only: inv_flip inv_next inv_prev inv_goto inv_reset)

lemma step_flip_reset:
  "currentCardIndex (step cards a s) \<noteq> currentCardIndex s \<Longrightarrow> \<not> isFlipped (step cards a s)"
  by (cases a)
    (simp_all add: step_def flipCard_def nextCard_def previousCard_def goToCard_def
      resetDeck_def initialState_def split: if_splits)

subsection \<open>Projections of \<open>useFlashcards\<close> to its session state\<close>

lemma hk_state_flipCard: "hk_state (uf_flipCard now h) = flipCard (hk_state h)"
  by (simp add: uf_flipCard_def flipCard_def)

lemma hk_state_previousCard:
  "hk_state (uf_previousCard now st h) = previousCard st (hk_state h)"
  by (simp add: uf_previousCard_def previousCard_def)

lemma hk_state_goToCard:
  "hk_state (uf_goToCard props now i h) = goToCard (deck_cards props) i (hk_state h)"
  by (simp add: uf_goToCard_def goToCard_def)

lemma hk_state_resetDeck: "hk_state (uf_resetDeck props now h) = initialState"
  by (simp add: uf_resetDeck_def)

lemma hk_state_progressEffect:
  "hk_state (uf_progressEffect props h) =
     (hk_state h)\<lparr>progress := real_of_int (calculateProgress (currentCardIndex (hk_state h))
                         (int (length (deck_cards props))))\<rparr>"
  by (simp add: uf_progressEffect_def)

lemma hk_state_completionEffect:
  "hk_state (uf_completionEffect props now isoNow h) = hk_state h"
  by (simp add: uf_completionEffect_def)

lemma hk_state_runEffects:
  "hk_state (uf_runEffects props now isoNow b ss h) =
     (if currentCardIndex (hk_state h) \<noteq> currentCardIndex (hk_state b)
      then (hk_state h)\<lparr>progress :=
              real_of_int (calculateProgress (currentCardIndex (hk_state h))
                             (int (length (deck_cards props))))\<rparr>
      else hk_state h)"
  by (simp add: uf_runEffects_def Let_def hk_state_completionEffect hk_state_progressEffect)

lemma uf_runEffects_index [simp]:
  "currentCardIndex (hk_state (uf_runEffects props now isoNow b ss h)) =
   currentCardIndex (hk_state h)"
  by (simp add: hk_state_runEffects)

lemma uf_runEffects_isFlipped [simp]:
  "isFlipped (hk_state (uf_runEffects props now isoNow b ss h)) = isFlipped (hk_state h)"
  by (simp add: hk_state_runEffects)

lemma uf_runEffects_isComplete [simp]:
  "isComplete (hk_state (uf_runEffects props now isoNow b ss h)) = isComplete (hk_state h)"
  by (simp add: hk_state_runEffects)

text \<open>
  The completion effect starts a handler exactly when it runs (one of its dependencies
  has changed) and its guard holds; a started handler stays until it ends.
\<close>

lemma hk_completions_runEffects:
  "hk_completions (uf_runEffects props now isoNow b ss h) =
     hk_completions h @
     (if (currentCardIndex (hk_state h) \<noteq> currentCardIndex (hk_state b) \<or> ss \<or>
          isComplete (hk_state h) \<noteq> isComplete (hk_state b)) \<and>
         currentCardIndex (hk_state h) \<ge> int (length (deck_cards props)) \<and>
         length (deck_cards props) > 0 \<and> \<not> isComplete (hk_state h)
      then [AwaitLoad (sessionStatistics props now isoNow (hk_session h))] else [])"
  by (simp add: uf_runEffects_def Let_def uf_completionEffect_def uf_progressEffect_def)

lemma hk_completions_flipCard: "hk_completions (uf_flipCard now h) = hk_completions h"
  by (simp add: uf_flipCard_def)

lemma hk_completions_previousCard:
  "hk_completions (uf_previousCard now st h) = hk_completions h"
  by (simp add: uf_previousCard_def)

lemma hk_completions_goToCard:
  "hk_completions (uf_goToCard props now i h) = hk_completions h"
  by (simp add: uf_goToCard_def)

lemma hk_completions_resetDeck:
  "hk_completions (uf_resetDeck props now h) = hk_completions h"
  by (simp add: uf_resetDeck_def)

subsection \<open>The invariant of \<open>useFlashcards\<close>\<close>

lemma drawOther_range:
  assumes "\<forall>r\<in>set rs. 0 \<le> r \<and> r \<le> 1 - 1 / 2 ^ 53" and "0 < n"
    and "drawOther c n rs = Some i"
  shows "0 \<le> i \<and> i < n \<and> i \<noteq> c"
  using assms
proof (induction rs)
  case Nil
  then show ?case by simp
next
  case (Cons r rs)
  have r: "0 \<le> r" "r \<le> 1 - 1 / 2 ^ 53" using Cons.prems(1) by auto
  have n: "1 \<le> real_of_int n" using \<open>0 < n\<close> by simp
  have "0 \<le> r * real_of_int n" using r(1) n by simp
  moreover have "r * real_of_int n \<le> real_of_int n * (1 - 1 / 2 ^ 53)"
    using r(2) n by (simp only: mult.commute [of r] mult_le_cancel_left_pos)
  ultimately have d: "0 \<le> double (r * real_of_int n)" "double (r * real_of_int n) < real_of_int n"
    using n by (simp_all only: double_nonneg double_below)
  have lo: "0 \<le> \<lfloor>js_mul r (real_of_int n)\<rfloor>" using d(1) by (simp add: js_mul_def)
  have hi: "\<lfloor>js_mul r (real_of_int n)\<rfloor> < n" using d(2) by (simp add: js_mul_def floor_less_iff)
  show ?case
  proof (cases "\<lfloor>js_mul r (real_of_int n)\<rfloor> = c")
    case True
    then have "drawOther c n rs = Some i" using Cons.prems(3) by simp
    then show ?thesis using Cons.IH Cons.prems(1,2) by simp
  next
    case False
    then have "i = \<lfloor>js_mul r (real_of_int n)\<rfloor>" using Cons.prems(3) by simp
    then show ?thesis using lo hi False by simp
  qed
qed

lemma sessionInvariant_cases:
  "sessionInvariant cards s \<longleftrightarrow>
     (isComplete s \<and> currentCardIndex s = int (length cards)) \<or>
     (\<not> isComplete s \<and> 0 \<le> currentCardIndex s \<and> currentCardIndex s < int (length cards)) \<or>
     (\<not> isComplete s \<and> cards = [] \<and> currentCardIndex s = 0)"
  unfolding sessionInvariant_def
  by (cases "isComplete s"; cases cards; auto)

lemma ufInvariant_cases:
  "ufInvariant props h \<longleftrightarrow>
     (isComplete (hk_state h) \<and>
      currentCardIndex (hk_state h) = int (length (deck_cards props)) \<and>
      \<not> (studyMode props = Random \<and> length (deck_cards props) > 1)) \<or>
     (\<not> isComplete (hk_state h) \<and> 0 \<le> currentCardIndex (hk_state h) \<and>
      currentCardIndex (hk_state h) < int (length (deck_cards props))) \<or>
     (\<not> isComplete (hk_state h) \<and>
      currentCardIndex (hk_state h) = int (length (deck_cards props)) \<and>
      (deck_cards props = [] \<or> hk_completions h \<noteq> []) \<and>
      \<not> (studyMode props = Random \<and> length (deck_cards props) > 1))"
  unfolding ufInvariant_def
  by (cases "isComplete (hk_state h)"; cases "deck_cards props"; auto)

lemma uf_inv_mount: "ufInvariant props (uf_mount props now isoNow kv)"
  by (auto simp: ufInvariant_cases uf_mount_def uf_completionEffect_def uf_progressEffect_def
      initialState_def)

lemma uf_inv_flip:
  assumes "ufInvariant props h"
    and "uf_step props rs now isoNow FlipCard h = Some h'"
  shows "ufInvariant props h'"
proof -
  from assms(2) have h': "h' = uf_runEffects props now isoNow h True (uf_flipCard now h)"
    by (simp add: uf_step_def)
  show ?thesis
    using assms(1) unfolding ufInvariant_cases h'
    by (auto simp: hk_completions_runEffects hk_completions_flipCard hk_state_flipCard
        flipCard_def)
qed

lemma uf_inv_prev:
  assumes "ufInvariant props h"
    and "uf_step props rs now isoNow PreviousCard h = Some h'"
  shows "ufInvariant props h'"
proof -
  from assms(2) have h': "h' = uf_runEffects props now isoNow h
       (currentCardIndex (hk_state h) > 0) (uf_previousCard now (hk_state h) h)"
    by (simp add: uf_step_def)
  show ?thesis
    using assms(1) unfolding ufInvariant_cases h'
    by (auto simp: hk_completions_runEffects hk_completions_previousCard hk_state_previousCard
        previousCard_def)
qed

lemma uf_inv_goto:
  assumes "ufInvariant props h"
    and "uf_step props rs now isoNow (GoToCard i) h = Some h'"
  shows "ufInvariant props h'"
proof -
  from assms(2) have h': "h' = uf_runEffects props now isoNow h
       (i \<ge> 0 \<and> i < int (length (deck_cards props))) (uf_goToCard props now i h)"
    by (simp add: uf_step_def)
  show ?thesis
    using assms(1) unfolding ufInvariant_cases h'
    by (auto simp: hk_completions_runEffects hk_completions_goToCard hk_state_goToCard
        goToCard_def)
qed

lemma uf_inv_reset:
  assumes "ufInvariant props h"
    and "uf_step props rs now isoNow ResetDeck h = Some h'"
  shows "ufInvariant props h'"
proof -
  from assms(2) have h': "h' = uf_runEffects props now isoNow h True (uf_resetDeck props now h)"
    by (simp add: uf_step_def)
  show ?thesis
    using assms(1) unfolding ufInvariant_cases h'
    by (auto simp: hk_completions_runEffects hk_completions_resetDeck hk_state_resetDeck
        initialState_def)
qed

lemma hk_state_nextCard:
  assumes "uf_nextCard props rs now st h = Some h1"
  shows "\<exists>nextIndex.
           getNextCardIndex (currentCardIndex st) (int (length (deck_cards props)))
             (studyMode props) rs = Some nextIndex \<and>
           hk_completions h1 = hk_completions h \<and>
           hk_state h1 =
             (hk_state h)\<lparr>currentCardIndex :=
                 (case nextIndex of Some i \<Rightarrow> i | None \<Rightarrow> int (length (deck_cards props))),
               isFlipped := False\<rparr>"
  using assms by (auto simp: uf_nextCard_def split: option.splits)

lemma getNextCardIndex_range:
  assumes "\<forall>r\<in>set rs. 0 \<le> r \<and> r \<le> 1 - 1 / 2 ^ 53"
    and "getNextCardIndex c n m rs = Some (Some i)" and "0 \<le> c"
  shows "0 \<le> i \<and> i < n"
proof (cases m)
  case Sequential
  with assms(2,3) show ?thesis by (auto split: if_splits)
next
  case Spaced
  with assms(2,3) show ?thesis by (auto split: if_splits)
next
  case Random
  with assms(2) have n: "0 < n" and d: "drawOther c n rs = Some i"
    by (auto split: if_splits)
  from drawOther_range[OF assms(1) n d] show ?thesis by simp
qed

lemma getNextCardIndex_null:
  assumes "getNextCardIndex c n m rs = Some None"
  shows "(m = Random \<and> n \<le> 1) \<or> (m \<noteq> Random \<and> \<not> c < n - 1)"
  using assms by (cases m) (auto split: if_splits)

lemma getNextCardIndex_some:
  assumes "getNextCardIndex c n m rs = Some (Some i)"
  shows "(m = Random \<and> 1 < n) \<or> (m \<noteq> Random \<and> c < n - 1)"
  using assms by (cases m) (auto split: if_splits)

lemma uf_inv_next:
  assumes draws: "\<forall>r\<in>set rs. 0 \<le> r \<and> r \<le> 1 - 1 / 2 ^ 53"
    and inv: "ufInvariant props h"
    and st: "uf_step props rs now isoNow NextCard h = Some h'"
  shows "ufInvariant props h'"
proof -
  from st obtain h1 where h1: "uf_nextCard props rs now (hk_state h) h = Some h1"
    and h': "h' = uf_runEffects props now isoNow h True h1"
    by (auto simp: uf_step_def)
  from hk_state_nextCard[OF h1] obtain nextIndex where
    g: "getNextCardIndex (currentCardIndex (hk_state h)) (int (length (deck_cards props)))
          (studyMode props) rs = Some nextIndex"
    and c1: "hk_completions h1 = hk_completions h"
    and s1: "hk_state h1 = (hk_state h)\<lparr>currentCardIndex :=
                 (case nextIndex of Some i \<Rightarrow> i | None \<Rightarrow> int (length (deck_cards props))),
               isFlipped := False\<rparr>"
    by blast
  from inv have c0: "0 \<le> currentCardIndex (hk_state h)"
    by (simp add: ufInvariant_def)
  show ?thesis
  proof (cases nextIndex)
    case None
    with g have "(studyMode props = Random \<and> int (length (deck_cards props)) \<le> 1) \<or>
        (studyMode props \<noteq> Random \<and>
         \<not> currentCardIndex (hk_state h) < int (length (deck_cards props)) - 1)"
      using getNextCardIndex_null by blast
    then show ?thesis
      using inv None unfolding ufInvariant_cases h'
      by (auto simp: hk_completions_runEffects c1 s1)
  next
    case (Some i)
    with g draws c0 have "0 \<le> i \<and> i < int (length (deck_cards props))"
      using getNextCardIndex_range by blast
    moreover from g Some have "(studyMode props = Random \<and> 1 < int (length (deck_cards props))) \<or>
        (studyMode props \<noteq> Random \<and>
         currentCardIndex (hk_state h) < int (length (deck_cards props)) - 1)"
      using getNextCardIndex_some by blast
    ultimately show ?thesis
      using inv Some unfolding ufInvariant_cases h'
      by (auto simp: hk_completions_runEffects c1 s1)
  qed
qed

lemma uf_step_flip_reset:
  assumes "uf_step props rs now isoNow a h = Some h'"
    and "currentCardIndex (hk_state h') \<noteq> currentCardIndex (hk_state h)"
  shows "\<not> isFlipped (hk_state h')"
proof (cases a)
  case FlipCard
  with assms show ?thesis by (auto simp: uf_step_def hk_state_flipCard flipCard_def)
next
  case NextCard
  with assms(1) obtain h1 where h1: "uf_nextCard props rs now (hk_state h) h = Some h1"
    and h': "h' = uf_runEffects props now isoNow h True h1"
    by (auto simp: uf_step_def)
  from hk_state_nextCard[OF h1] show ?thesis unfolding h' by auto
next
  case PreviousCard
  with assms show ?thesis
    by (auto simp: uf_step_def hk_state_previousCard previousCard_def split: if_splits)
next
  case (GoToCard i)
  with assms show ?thesis
    by (auto simp: uf_step_def hk_state_goToCard goToCard_def split: if_splits)
next
  case ResetDeck
  with assms show ?thesis
    by (auto simp: uf_step_def hk_state_resetDeck initialState_def)
qed

lemma uf_inv_step:
  assumes "\<forall>r\<in>set rs. 0 \<le> r \<and> r \<le> 1 - 1 / 2 ^ 53" and "ufInvariant props h"
    and "uf_step props rs now isoNow a h = Some h'"
  shows "ufInvariant props h'"
  using assms
  by (cases a) (blast intro: uf_inv_flip uf_inv_next uf_inv_prev uf_inv_goto uf_inv_reset)+

lemma drawOther_None:
  "drawOther c n rs = None \<longleftrightarrow> (\<forall>r\<in>set rs. \<lfloor>js_mul r (real_of_int n)\<rfloor> = c)"
  by (induction rs) (auto simp: Let_def)

lemma drawOther_None_nat:
  "drawOther c (int n) rs = None \<longleftrightarrow> (\<forall>r\<in>set rs. \<lfloor>js_mul r (real n)\<rfloor> = c)"
  using drawOther_None [of c "int n" rs] by simp

lemma uf_step_None:
  "uf_step props rs now isoNow a h = None \<longleftrightarrow>
     a = NextCard \<and> studyMode props = Random \<and> 1 < int (length (deck_cards props)) \<and>
     (\<forall>r\<in>set rs. \<lfloor>js_mul r (real_of_int (int (length (deck_cards props))))\<rfloor>
                   = currentCardIndex (hk_state h))"
proof (cases a)
  case NextCard
  show ?thesis
  proof (cases "studyMode props")
    case Random
    have "uf_step props rs now isoNow a h = None \<longleftrightarrow>
            \<not> int (length (deck_cards props)) \<le> 1 \<and>
            drawOther (currentCardIndex (hk_state h)) (int (length (deck_cards props))) rs = None"
      using NextCard Random by (simp add: uf_step_def uf_nextCard_def split: option.splits)
    then show ?thesis
      using NextCard Random by (simp add: drawOther_None_nat not_le)
  qed (simp_all add: NextCard uf_step_def uf_nextCard_def)
qed (simp_all add: uf_step_def)

subsection \<open>Steps of a completion handler\<close>

lemma hk_state_resume:
  assumes "uf_resume props k h = Some h'"
  shows "hk_state h' = hk_state h \<and> length (hk_completions h') = length (hk_completions h) \<or>
         (\<exists>statistics. k < length (hk_completions h) \<and>
            hk_completions h ! k = AwaitMark statistics \<and>
            hk_state h' = (hk_state h)\<lparr>isComplete := True\<rparr>)"
proof (cases "k < length (hk_completions h)")
  case False
  with assms show ?thesis by (simp add: uf_resume_def)
next
  case True
  show ?thesis
  proof (cases "hk_completions h ! k")
    case (AwaitLoad st)
    with assms True show ?thesis by (auto simp: uf_resume_def)
  next
    case (AwaitSave st)
    with assms True show ?thesis by (auto simp: uf_resume_def)
  next
    case (AwaitMark st)
    with assms True show ?thesis by (auto simp: uf_resume_def)
  qed
qed

lemma uf_inv_resume:
  assumes inv: "ufInvariant props h"
    and r: "uf_resume props k h = Some h'"
    and at_end: "currentCardIndex (hk_state h) = int (length (deck_cards props)) \<or>
                 hk_state h' = hk_state h"
  shows "ufInvariant props h'"
proof -
  from hk_state_resume [OF r] consider
    (same) "hk_state h' = hk_state h" "length (hk_completions h') = length (hk_completions h)"
    | (finished) "hk_state h' = (hk_state h)\<lparr>isComplete := True\<rparr>"
    by blast
  then show ?thesis
  proof cases
    case same
    from same(2) have "hk_completions h' = [] \<longleftrightarrow> hk_completions h = []" by auto
    with inv same(1) show ?thesis unfolding ufInvariant_cases by auto
  next
    case finished
    show ?thesis
    proof (cases "isComplete (hk_state h)")
      case True
      with finished have "hk_state h' = hk_state h" by simp
      with inv True show ?thesis unfolding ufInvariant_cases by auto
    next
      case False
      with at_end finished have "currentCardIndex (hk_state h) = int (length (deck_cards props))"
        by (cases "hk_state h") auto
      with inv finished show ?thesis unfolding ufInvariant_cases by auto
    qed
  qed
qed

subsection \<open>The session invariant (C2)\<close>

lemma js_mul_half_3: "js_mul (1 / 2) 3 = 3 / 2"
  unfolding js_mul_def
  using double_eqI [where x = "(1 / 2) * 3" and k = "0" and n = 6755399441055744]
  by simp

text \<open>
  C2, as stated, fails. The specification's invariant, with
  \<open>currentCardIndex = cards.length\<close> exactly when \<open>isComplete\<close>, is claimed for every deck
  including the empty one, but on the empty deck the mounted \<open>useFlashcardState\<close> has
  index \<open>0\<close>, which is the length, and \<open>isComplete = false\<close> (the completion effect
  requires \<open>cards.length > 0\<close>); \<open>resetDeck\<close> leads back to that state. And in
  \<open>useFlashcards\<close>, on a deck of three cards, the third \<open>nextCard\<close> leaves the index at \<open>3\<close>
  with \<open>isComplete = false\<close> and one completion handler started: \<open>isComplete\<close> is set
  only when that handler has stored the statistics.
\<close>

theorem empty_deck_breaks_spec_invariant:
  "\<not> spec_invariant [] (mount []) \<and>
   \<not> spec_invariant [] (step [] ResetDeck (step [] NextCard (mount []))) \<and>
   map_option (\<lambda>h. (currentCardIndex (hk_state h), isComplete (hk_state h),
                     length (hk_completions h)))
     (Option.bind
        (Option.bind
           (uf_step (sampleProps Sequential) [] 1000 ''t'' NextCard
              (uf_mount (sampleProps Sequential) 0 ''t'' emptyStorage))
           (uf_step (sampleProps Sequential) [] 2000 ''t'' NextCard))
        (uf_step (sampleProps Sequential) [] 3000 ''t'' NextCard))
     = Some (3, False, 1)"
  by (simp add: spec_invariant_def mount_def completionEffect_def progressEffect_def
      initialState_def step_def runEffects_def nextCard_def resetDeck_def
      uf_step_def uf_nextCard_def uf_mount_def uf_runEffects_def uf_completionEffect_def
      uf_progressEffect_def sampleProps_def length_sampleDeck Let_def)

text \<open>
  C2, amended. In \<open>useFlashcardState\<close> the initial state and every operation (\<open>flipCard\<close>,
  \<open>nextCard\<close>, \<open>previousCard\<close>, \<open>goToCard\<close>, \<open>resetDeck\<close>) keep
  \<open>0 \<le> currentCardIndex \<le> cards.length\<close> and \<open>isComplete \<longrightarrow> currentCardIndex = cards.length\<close>,
  and on a deck with at least one card also the converse, so that there the invariant
  is the specification's; \<open>isFlipped\<close> is false after every operation that changes the
  index. In \<open>useFlashcards\<close> the initial state and every operation keep the same bounds
  and \<open>isComplete \<longrightarrow> currentCardIndex = cards.length\<close>, and \<open>isFlipped\<close> is false after every
  operation that changes the index; at the end of a deck with at least one card the
  session is complete or a completion handler is under way. A step of a handler keeps
  this invariant as long as the index is still at the end or the step does not touch
  the state, and the last step of a handler, taken with the index still at the end,
  sets \<open>isComplete\<close>, so that the specification's invariant holds then. The draws of
  \<open>Math.random()\<close> are doubles in \<open>[0, 1)\<close>, and an operation fails to return only when
  the random mode keeps drawing the current index.
\<close>

theorem session_invariant_preserved:
  "sessionInvariant cards (mount cards) \<and>
   (sessionInvariant cards s \<longrightarrow> sessionInvariant cards (step cards a s)) \<and>
   (currentCardIndex (step cards a s) \<noteq> currentCardIndex s \<longrightarrow> \<not> isFlipped (step cards a s)) \<and>
   (cards \<noteq> [] \<longrightarrow> sessionInvariant cards s = spec_invariant cards s) \<and>
   ufInvariant props (uf_mount props now isoNow kv) \<and>
   ((\<forall>r\<in>set rs. 0 \<le> r \<and> r \<le> 1 - 1 / 2 ^ 53) \<and> ufInvariant props h \<and>
    uf_step props rs now isoNow a h = Some h' \<longrightarrow>
      ufInvariant props h' \<and>
      (currentCardIndex (hk_state h') \<noteq> currentCardIndex (hk_state h)
         \<longrightarrow> \<not> isFlipped (hk_state h'))) \<and>
   (ufInvariant props g \<and> uf_resume props k g = Some g' \<and>
    (currentCardIndex (hk_state g) = int (length (deck_cards props)) \<or>
     hk_state g' = hk_state g) \<longrightarrow>
      ufInvariant props g') \<and>
   (ufInvariant props g \<and> uf_resume props k g = Some g' \<and>
    currentCardIndex (hk_state g) = int (length (deck_cards props)) \<and>
    k < length (hk_completions g) \<and> hk_completions g ! k = AwaitMark statistics \<longrightarrow>
      spec_invariant (deck_cards props) (hk_state g')) \<and>
   (uf_step props rs now isoNow a h = None \<longleftrightarrow>
      a = NextCard \<and> studyMode props = Random \<and> 1 < int (length (deck_cards props)) \<and>
      (\<forall>r\<in>set rs. \<lfloor>js_mul r (real_of_int (int (length (deck_cards props))))\<rfloor>
                    = currentCardIndex (hk_state h)))"
proof -
  have 1: "sessionInvariant cards (mount cards)" by (rule inv_mount)
  have 2: "sessionInvariant cards s \<longrightarrow> sessionInvariant cards (step cards a s)"
    using inv_step by blast
  have 3: "currentCardIndex (step cards a s) \<noteq> currentCardIndex s
             \<longrightarrow> \<not> isFlipped (step cards a s)"
    using step_flip_reset by blast
  have 4: "cards \<noteq> [] \<longrightarrow> sessionInvariant cards s = spec_invariant cards s"
    unfolding sessionInvariant_def spec_invariant_def by blast
  have 5: "ufInvariant props (uf_mount props now isoNow kv)"
    by (rule uf_inv_mount)
  have 6: "(\<forall>r\<in>set rs. 0 \<le> r \<and> r \<le> 1 - 1 / 2 ^ 53) \<and> ufInvariant props h \<and>
    uf_step props rs now isoNow a h = Some h' \<longrightarrow>
      ufInvariant props h' \<and>
      (currentCardIndex (hk_state h') \<noteq> currentCardIndex (hk_state h)
         \<longrightarrow> \<not> isFlipped (hk_state h'))"
    using uf_inv_step uf_step_flip_reset by blast
  have 7: "ufInvariant props g \<and> uf_resume props k g = Some g' \<and>
    (currentCardIndex (hk_state g) = int (length (deck_cards props)) \<or>
     hk_state g' = hk_state g) \<longrightarrow>
      ufInvariant props g'"
    using uf_inv_resume by blast
  have 8: "spec_invariant (deck_cards props) (hk_state g')"
    if inv: "ufInvariant props g" and r: "uf_resume props k g = Some g'"
      and e: "currentCardIndex (hk_state g) = int (length (deck_cards props))"
      and k: "k < length (hk_completions g)" "hk_completions g ! k = AwaitMark statistics"
  proof -
    from r k have "hk_state g' = (hk_state g)\<lparr>isComplete := True\<rparr>"
      by (auto simp: uf_resume_def)
    with e show ?thesis by (simp add: spec_invariant_def)
  qed
  note 9 = uf_step_None [of props rs now isoNow a h]
  from 1 2 3 4 5 6 7 8 9 show ?thesis by (intro conjI impI) blast+
qed

theorem session_invariant_preserved_witness:
  "sessionInvariant (sampleDeck 3) (mount (sampleDeck 3)) \<and>
   sessionInvariant (sampleDeck 3) (step (sampleDeck 3) NextCard (mount (sampleDeck 3))) \<and>
   currentCardIndex (step (sampleDeck 3) NextCard (mount (sampleDeck 3)))
     \<noteq> currentCardIndex (mount (sampleDeck 3)) \<and>
   \<not> isFlipped (step (sampleDeck 3) NextCard (mount (sampleDeck 3))) \<and>
   sampleDeck 3 \<noteq> [] \<and>
   spec_invariant (sampleDeck 3) (mount (sampleDeck 3)) \<and>
   (0::real) \<le> 1 / 2 \<and> (1 / 2 :: real) \<le> 1 - 1 / 2 ^ 53 \<and>
   (\<exists>h'. uf_step (sampleProps Random) [1 / 2] 1000 ''t'' NextCard
            (uf_mount (sampleProps Random) 1000 ''t'' emptyStorage) = Some h' \<and>
         ufInvariant (sampleProps Random) h' \<and>
         currentCardIndex (hk_state h') = 1 \<and> \<not> isFlipped (hk_state h')) \<and>
   ufInvariant (sampleProps Sequential)
     \<lparr>hk_state = \<lparr>currentCardIndex = 3, isFlipped = False, isComplete = False, progress = 100\<rparr>,
      hk_session = \<lparr>startTime = 0, currentCardTime = 0, totalAnswers = 0, correctAnswers = 0\<rparr>,
      hk_storage = emptyStorage,
      hk_completions = [AwaitMark \<lparr>deckId = ''deck'', timesCompleted = 1, averageScore = 0,
         lastCompletedAt = ''t'', totalStudyTime = 0, favoriteCards = []\<rparr>]\<rparr> \<and>
   (\<exists>g'. uf_resume (sampleProps Sequential) 0
            \<lparr>hk_state = \<lparr>currentCardIndex = 3, isFlipped = False, isComplete = False,
                          progress = 100\<rparr>,
             hk_session = \<lparr>startTime = 0, currentCardTime = 0, totalAnswers = 0,
                            correctAnswers = 0\<rparr>,
             hk_storage = emptyStorage,
             hk_completions = [AwaitMark \<lparr>deckId = ''deck'', timesCompleted = 1,
                averageScore = 0, lastCompletedAt = ''t'', totalStudyTime = 0,
                favoriteCards = []\<rparr>]\<rparr> = Some g' \<and>
         ufInvariant (sampleProps Sequential) g' \<and>
         spec_invariant (sampleDeck 3) (hk_state g') \<and> isComplete (hk_state g'))"
proof -
  let ?P = "sampleProps Random"
  let ?h = "uf_mount ?P 1000 ''t'' emptyStorage"
  let ?h' = "the (uf_step ?P [1 / 2] 1000 ''t'' NextCard ?h)"
  let ?S = "sampleProps Sequential"
  let ?st = "\<lparr>deckId = ''deck'', timesCompleted = 1, averageScore = 0,
         lastCompletedAt = ''t'', totalStudyTime = 0, favoriteCards = []\<rparr>"
  let ?g = "\<lparr>hk_state = \<lparr>currentCardIndex = 3, isFlipped = False, isComplete = False,
                          progress = 100\<rparr>,
             hk_session = \<lparr>startTime = 0, currentCardTime = 0, totalAnswers = 0,
                            correctAnswers = 0\<rparr>,
             hk_storage = emptyStorage,
             hk_completions = [AwaitMark ?st]\<rparr>"
  let ?g' = "the (uf_resume ?S 0 ?g)"
  note t = session_invariant_preserved
      [where cards = "sampleDeck 3" and s = "mount (sampleDeck 3)" and a = NextCard
        and props = ?P and now = 1000 and isoNow = "''t''" and kv = emptyStorage
        and rs = "[1 / 2]" and h = ?h and h' = ?h' and g = ?g and g' = ?g' and k = 0
        and statistics = ?st]
  note u = session_invariant_preserved
      [where cards = "sampleDeck 3" and s = "mount (sampleDeck 3)" and a = NextCard
        and props = ?S and now = 1000 and isoNow = "''t''" and kv = emptyStorage
        and rs = "[]" and h = ?g and h' = ?g and g = ?g and g' = ?g' and k = 0
        and statistics = ?st]
  have ne: "sampleDeck 3 \<noteq> []" by (simp add: sampleDeck_def)
  have ch: "currentCardIndex (step (sampleDeck 3) NextCard (mount (sampleDeck 3)))
     \<noteq> currentCardIndex (mount (sampleDeck 3))"
    by (simp add: step_def nextCard_def mount_def completionEffect_def progressEffect_def
        initialState_def length_sampleDeck)
  have d: "(0::real) \<le> 1 / 2" "(1 / 2 :: real) \<le> 1 - 1 / 2 ^ 53" by simp_all
  have "\<lfloor>js_mul (1 / 2) (real_of_int (int (length (deck_cards ?P))))\<rfloor>
          \<noteq> currentCardIndex (hk_state ?h)"
    by (simp add: sampleProps_def length_sampleDeck uf_mount_def
        hk_state_completionEffect hk_state_progressEffect initialState_def js_mul_half_3)
  with t have some: "uf_step ?P [1 / 2] 1000 ''t'' NextCard ?h \<noteq> None" by simp
  then have e: "uf_step ?P [1 / 2] 1000 ''t'' NextCard ?h = Some ?h'" by simp
  have i: "currentCardIndex (hk_state ?h') = 1"
    by (simp add: uf_step_def uf_nextCard_def sampleProps_def length_sampleDeck uf_mount_def
        hk_state_completionEffect hk_state_progressEffect initialState_def js_mul_half_3)
  have i0: "currentCardIndex (hk_state ?h) = 0"
    by (simp add: uf_mount_def hk_state_completionEffect hk_state_progressEffect
        initialState_def)
  have ginv: "ufInvariant ?S ?g"
    by (simp add: ufInvariant_def sampleProps_def length_sampleDeck)
  have ge: "uf_resume ?S 0 ?g = Some ?g'" by (simp add: uf_resume_def)
  have gl: "currentCardIndex (hk_state ?g) = int (length (deck_cards ?S))"
    by (simp add: sampleProps_def length_sampleDeck)
  have gk: "0 < length (hk_completions ?g)" "hk_completions ?g ! 0 = AwaitMark ?st" by simp_all
  have gc: "isComplete (hk_state ?g')" by (simp add: uf_resume_def)
  have dc: "deck_cards ?S = sampleDeck 3" by (simp add: sampleProps_def)
  have dr: "\<forall>r\<in>set [1 / 2 :: real]. 0 \<le> r \<and> r \<le> 1 - 1 / 2 ^ 53" by simp
  have ii: "currentCardIndex (hk_state ?h') \<noteq> currentCardIndex (hk_state ?h)"
    by (simp only: i i0)
  from t have a1: "sessionInvariant (sampleDeck 3) (mount (sampleDeck 3))" by blast
  from t a1 have a2:
    "sessionInvariant (sampleDeck 3) (step (sampleDeck 3) NextCard (mount (sampleDeck 3)))"
    by blast
  from t ne a1 have a3: "spec_invariant (sampleDeck 3) (mount (sampleDeck 3))" by blast
  from t ch have b: "\<not> isFlipped (step (sampleDeck 3) NextCard (mount (sampleDeck 3)))"
    by blast
  from t have m: "ufInvariant ?P ?h" by blast
  from t dr m e ii have c: "ufInvariant ?P ?h' \<and> \<not> isFlipped (hk_state ?h')" by blast
  from u ginv ge gl have f1: "ufInvariant ?S ?g'" by blast
  from u ginv ge gl gk have "spec_invariant (deck_cards ?S) (hk_state ?g')" by blast
  then have f2: "spec_invariant (sampleDeck 3) (hk_state ?g')" by (simp only: dc)
  from a1 a2 a3 b ch ne d c e i ginv ge gc f1 f2 show ?thesis by blast
qed

subsection \<open>Repeated advance (C3)\<close>

lemma advance_n:
  "currentCardIndex ((step cards NextCard ^^ N) (mount cards)) = min (int N) (int (length cards)) \<and>
   (isComplete ((step cards NextCard ^^ N) (mount cards)) \<longleftrightarrow>
      (N \<ge> length cards \<and> (cards \<noteq> [] \<or> N > 0)))"
proof (induction N)
  case 0
  show ?case
    by (auto simp: mount_def completionEffect_def progressEffect_def initialState_def)
next
  case (Suc N)
  then show ?case
    by (auto simp: step_def runEffects_isComplete nextCard_def min_def)
qed

text \<open>
  C3, as stated, fails at the empty deck with \<open>N = 0\<close>: the index \<open>0\<close> equals the length,
  but \<open>isComplete\<close> is false.
\<close>

theorem advance_zero_times_on_empty_deck:
  "\<not> (currentCardIndex ((step [] NextCard ^^ 0) (mount [])) = int (length ([] :: Flashcard list))
        \<longleftrightarrow> isComplete ((step [] NextCard ^^ 0) (mount [])))"
  by (simp add: mount_def completionEffect_def progressEffect_def initialState_def)

text \<open>
  C3, amended: for every deck and every \<open>N\<close>, where the deck has at least one card or
  \<open>N \<ge> 1\<close>, after \<open>N\<close> consecutive \<open>nextCard\<close> calls from the mounted hook (each from the
  render that follows the previous call) the index is \<open>min(N, cards.length)\<close>, and it
  equals \<open>cards.length\<close> exactly when \<open>isComplete\<close> is true.
\<close>

theorem advance_n_times:
  assumes "cards \<noteq> [] \<or> 0 < N"
  shows "currentCardIndex ((step cards NextCard ^^ N) (mount cards))
           = min (int N) (int (length cards)) \<and>
         (currentCardIndex ((step cards NextCard ^^ N) (mount cards)) = int (length cards)
            \<longleftrightarrow> isComplete ((step cards NextCard ^^ N) (mount cards)))"
  using assms advance_n [where cards = cards and N = N] by (auto simp: min_def)

theorem advance_n_times_witness:
  "sampleDeck 3 \<noteq> [] \<and>
   currentCardIndex ((step (sampleDeck 3) NextCard ^^ 5) (mount (sampleDeck 3))) = 3 \<and>
   isComplete ((step (sampleDeck 3) NextCard ^^ 5) (mount (sampleDeck 3)))"
  using advance_n_times [where cards = "sampleDeck 3" and N = 5]
  by (auto simp: length_sampleDeck sampleDeck_def)

subsection \<open>Invalid jumps (C10)\<close>

text \<open>
  C10: for every index outside the valid range (\<open>i < 0\<close> or \<open>i \<ge> cards.length\<close>),
  \<open>goToCard(i)\<close> leaves the whole session state unchanged, in both hooks: the update is not
  queued, and since nothing has changed no effect runs either.
\<close>

theorem goToCard_invalid_noop:
  assumes "i < 0 \<or> i \<ge> int (length cards)"
  shows "goToCard cards i s = s \<and> step cards (GoToCard i) s = s \<and>
         (deck_cards props = cards \<longrightarrow>
            uf_goToCard props now i h = h \<and>
            uf_step props rs now isoNow (GoToCard i) h = Some h)"
  using assms
  by (auto simp: goToCard_def step_def runEffects_def uf_goToCard_def uf_step_def
      uf_runEffects_def)

theorem goToCard_invalid_noop_witness:
  "((7::int) < 0 \<or> 7 \<ge> int (length (sampleDeck 3))) \<and>
   deck_cards (sampleProps Sequential) = sampleDeck 3 \<and>
   goToCard (sampleDeck 3) 7 (mount (sampleDeck 3)) = mount (sampleDeck 3) \<and>
   step (sampleDeck 3) (GoToCard 7) (mount (sampleDeck 3)) = mount (sampleDeck 3) \<and>
   uf_step (sampleProps Sequential) [] 1000 ''t'' (GoToCard 7)
      (uf_mount (sampleProps Sequential) 1000 ''t'' emptyStorage)
     = Some (uf_mount (sampleProps Sequential) 1000 ''t'' emptyStorage)"
  using goToCard_invalid_noop [where i = 7 and cards = "sampleDeck 3"
      and s = "mount (sampleDeck 3)" and props = "sampleProps Sequential" and now = 1000
      and h = "uf_mount (sampleProps Sequential) 1000 ''t'' emptyStorage" and rs = "[]"
      and isoNow = "''t''"]
  by (simp add: length_sampleDeck sampleProps_def)

subsection \<open>The Complete state (C5)\<close>

text \<open>
  C5, as stated, fails: in the Complete state of a three-card deck (reached by three
  \<open>nextCard\<close> calls) \<open>flipCard\<close> sets \<open>isFlipped\<close>, and \<open>previousCard\<close> moves to index \<open>2\<close> and
  clears \<open>isComplete\<close>.
\<close>

theorem complete_state_flip_and_retreat_change_state:
  "(step (sampleDeck 3) NextCard ^^ 3) (mount (sampleDeck 3)) =
     \<lparr>currentCardIndex = 3, isFlipped = False, isComplete = True, progress = 100\<rparr> \<and>
   isFlipped (step (sampleDeck 3) FlipCard
     \<lparr>currentCardIndex = 3, isFlipped = False, isComplete = True, progress = 100\<rparr>) \<and>
   currentCardIndex (step (sampleDeck 3) PreviousCard
     \<lparr>currentCardIndex = 3, isFlipped = False, isComplete = True, progress = 100\<rparr>) = 2 \<and>
   \<not> isComplete (step (sampleDeck 3) PreviousCard
     \<lparr>currentCardIndex = 3, isFlipped = False, isComplete = True, progress = 100\<rparr>)"
  by (simp add: numeral_3_eq_3 step_def runEffects_def nextCard_def previousCard_def flipCard_def
      mount_def completionEffect_def progressEffect_def initialState_def length_sampleDeck
      js_div_def js_mul_def double_1 double_100)

text \<open>
  C5, amended: in the Complete state (\<open>currentCardIndex = cards.length\<close>, \<open>isComplete\<close>), in
  both hooks, \<open>flipCard\<close> toggles \<open>isFlipped\<close> and changes nothing else, and \<open>previousCard\<close>
  on a deck with at least one card returns to the last card: index \<open>cards.length - 1\<close>,
  \<open>isFlipped = false\<close>, \<open>isComplete = false\<close>, progress recomputed (on an empty deck it
  does nothing). In \<open>useFlashcardState\<close>, moreover, \<open>nextCard\<close> keeps the session Complete,
  while \<open>goToCard\<close> with a valid index and, on a deck with at least one card, \<open>resetDeck\<close>
  leave it as well.
\<close>

theorem complete_state_operations:
  assumes "currentCardIndex s = int (length cards)" and "isComplete s"
  shows "step cards FlipCard s = s\<lparr>isFlipped := \<not> isFlipped s\<rparr> \<and>
         step cards NextCard s = s\<lparr>isFlipped := False\<rparr> \<and>
         (cards \<noteq> [] \<longrightarrow>
            step cards PreviousCard s =
              s\<lparr>currentCardIndex := int (length cards) - 1, isFlipped := False,
                isComplete := False,
                progress := js_mul (js_div (real_of_int (int (length cards) - 1))
                                           (real (length cards))) 100\<rparr>) \<and>
         (cards = [] \<longrightarrow> step cards PreviousCard s = s) \<and>
         (0 \<le> i \<and> i < int (length cards) \<longrightarrow>
            currentCardIndex (step cards (GoToCard i) s) = i \<and>
            \<not> isComplete (step cards (GoToCard i) s)) \<and>
         (cards \<noteq> [] \<longrightarrow>
            currentCardIndex (step cards ResetDeck s) = 0 \<and>
            \<not> isComplete (step cards ResetDeck s)) \<and>
         (deck_cards props = cards \<and> hk_state h = s \<longrightarrow>
            map_option hk_state (uf_step props rs now isoNow FlipCard h)
              = Some (s\<lparr>isFlipped := \<not> isFlipped s\<rparr>) \<and>
            (cards \<noteq> [] \<longrightarrow>
               map_option hk_state (uf_step props rs now isoNow PreviousCard h)
                 = Some (s\<lparr>currentCardIndex := int (length cards) - 1, isFlipped := False,
                          isComplete := False,
                          progress := real_of_int
                            (calculateProgress (int (length cards) - 1) (int (length cards)))\<rparr>)))"
proof -
  have 1: "step cards FlipCard s = s\<lparr>isFlipped := \<not> isFlipped s\<rparr>"
    by (simp add: step_def runEffects_def flipCard_def)
  have 2: "step cards NextCard s = s\<lparr>isFlipped := False\<rparr>"
    using assms by (simp add: step_def runEffects_def nextCard_def)
  have 3: "step cards PreviousCard s =
      s\<lparr>currentCardIndex := int (length cards) - 1, isFlipped := False, isComplete := False,
        progress := js_mul (js_div (real_of_int (int (length cards) - 1))
                                   (real (length cards))) 100\<rparr>"
    if "cards \<noteq> []"
    using assms that
    by (simp add: step_def runEffects_def previousCard_def completionEffect_def
        progressEffect_def)
  have 4: "step cards PreviousCard s = s" if "cards = []"
    using assms that by (simp add: step_def runEffects_def previousCard_def)
  have 5: "map_option hk_state (uf_step props rs now isoNow FlipCard h)
      = Some (s\<lparr>isFlipped := \<not> isFlipped s\<rparr>)"
    if "deck_cards props = cards" "hk_state h = s"
    using assms that
    by (simp add: uf_step_def hk_state_runEffects hk_state_flipCard flipCard_def)
  have 6: "map_option hk_state (uf_step props rs now isoNow PreviousCard h)
      = Some (s\<lparr>currentCardIndex := int (length cards) - 1, isFlipped := False,
                isComplete := False,
                progress := real_of_int
                  (calculateProgress (int (length cards) - 1) (int (length cards)))\<rparr>)"
    if "deck_cards props = cards" "hk_state h = s" "cards \<noteq> []"
    using assms that
    by (simp add: uf_step_def hk_state_runEffects hk_state_previousCard previousCard_def)
  have 7: "currentCardIndex (step cards (GoToCard i) s) = i \<and>
      \<not> isComplete (step cards (GoToCard i) s)"
    if "0 \<le> i \<and> i < int (length cards)"
    using that by (simp add: step_def runEffects_isComplete goToCard_def)
  have 8: "currentCardIndex (step cards ResetDeck s) = 0 \<and>
      \<not> isComplete (step cards ResetDeck s)"
    if "cards \<noteq> []"
    using that by (simp add: step_def runEffects_isComplete resetDeck_def initialState_def)
  from 1 2 3 4 5 6 7 8 show ?thesis by blast
qed

theorem complete_state_operations_witness:
  "currentCardIndex \<lparr>currentCardIndex = 3, isFlipped = False, isComplete = True, progress = 100\<rparr>
     = int (length (sampleDeck 3)) \<and>
   isComplete \<lparr>currentCardIndex = 3, isFlipped = False, isComplete = True, progress = 100\<rparr> \<and>
   step (sampleDeck 3) FlipCard
       \<lparr>currentCardIndex = 3, isFlipped = False, isComplete = True, progress = 100\<rparr>
     = \<lparr>currentCardIndex = 3, isFlipped = True, isComplete = True, progress = 100\<rparr> \<and>
   step (sampleDeck 3) PreviousCard
       \<lparr>currentCardIndex = 3, isFlipped = False, isComplete = True, progress = 100\<rparr>
     = \<lparr>currentCardIndex = 2, isFlipped = False, isComplete = False,
        progress = js_mul (js_div 2 3) 100\<rparr> \<and>
   map_option hk_state (uf_step (sampleProps Sequential) [] 1000 ''t'' PreviousCard
       \<lparr>hk_state = \<lparr>currentCardIndex = 3, isFlipped = False, isComplete = True, progress = 100\<rparr>,
        hk_session = \<lparr>startTime = 0, currentCardTime = 0, totalAnswers = 0, correctAnswers = 0\<rparr>,
        hk_storage = emptyStorage, hk_completions = []\<rparr>)
     = Some \<lparr>currentCardIndex = 2, isFlipped = False, isComplete = False, progress = 67\<rparr>"
proof -
  let ?c = "\<lparr>currentCardIndex = 3, isFlipped = False, isComplete = True, progress = 100\<rparr>"
  let ?h = "\<lparr>hk_state = ?c,
        hk_session = \<lparr>startTime = 0, currentCardTime = 0, totalAnswers = 0, correctAnswers = 0\<rparr>,
        hk_storage = emptyStorage, hk_completions = []\<rparr>"
  have a: "currentCardIndex ?c = int (length (sampleDeck 3))" by (simp add: length_sampleDeck)
  have b: "isComplete ?c" by simp
  have ne: "sampleDeck 3 \<noteq> []" by (simp add: sampleDeck_def)
  have c: "calculateProgress 2 3 = 67"
    by (simp add: calculateProgress_def Math_round_def js_div_2_3 js_mul_2_3_100)
  note t = complete_state_operations [OF a b, where props = "sampleProps Sequential" and h = ?h
      and rs = "[]" and now = 1000 and isoNow = "''t''" and i = 0]
  from t ne c show ?thesis by (simp add: length_sampleDeck sampleProps_def)
qed

subsection \<open>Progress (C6)\<close>

lemma runEffects_progress:
  "progress (runEffects cards b s) =
     (if currentCardIndex s \<noteq> currentCardIndex b
      then (if length cards > 0
            then js_mul (js_div (real_of_int (currentCardIndex s)) (real (length cards))) 100
            else 0)
      else progress s)"
  by (simp add: runEffects_def completionEffect_def progressEffect_def)

lemma step_progress_settled:
  assumes "progress s = progress (progressEffect cards s)"
  shows "progress (step cards a s) = progress (progressEffect cards (step cards a s))"
proof (cases a)
  case FlipCard
  with assms show ?thesis
    by (simp add: step_def runEffects_progress progressEffect_def flipCard_def)
next
  case NextCard
  with assms show ?thesis
    by (simp add: step_def runEffects_progress progressEffect_def nextCard_def)
next
  case PreviousCard
  with assms show ?thesis
    by (simp add: step_def runEffects_progress progressEffect_def previousCard_def)
next
  case (GoToCard i)
  with assms show ?thesis
    by (simp add: step_def runEffects_progress progressEffect_def goToCard_def)
next
  case ResetDeck
  with assms show ?thesis
    by (simp add: step_def runEffects_progress progressEffect_def resetDeck_def
        initialState_def js_div_def js_mul_def)
qed

lemma step_next_index_mono:
  "currentCardIndex s \<le> int (length cards) \<Longrightarrow>
   currentCardIndex s \<le> currentCardIndex (step cards NextCard s)"
  by (simp add: step_def nextCard_def)

lemma step_prev_index_mono:
  "currentCardIndex (step cards PreviousCard s) \<le> currentCardIndex s"
  by (simp add: step_def previousCard_def)

lemma progressEffect_progress:
  "progress (progressEffect cards s) =
     (if cards \<noteq> []
      then js_mul (js_div (real_of_int (currentCardIndex s)) (real (length cards))) 100
      else 0)"
  by (simp add: progressEffect_def)

lemma uf_runEffects_progress:
  "progress (hk_state (uf_runEffects props now isoNow b ss h)) =
     (if currentCardIndex (hk_state h) \<noteq> currentCardIndex (hk_state b)
      then real_of_int (calculateProgress (currentCardIndex (hk_state h))
                          (int (length (deck_cards props))))
      else progress (hk_state h))"
  by (simp add: hk_state_runEffects)

lemma uf_step_progress_settled:
  assumes "progress (hk_state h) = real_of_int (calculateProgress (currentCardIndex (hk_state h))
                          (int (length (deck_cards props))))"
    and "uf_step props rs now isoNow a h = Some h'"
  shows "progress (hk_state h') = real_of_int (calculateProgress (currentCardIndex (hk_state h'))
                          (int (length (deck_cards props))))"
proof (cases a)
  case FlipCard
  with assms show ?thesis
    by (auto simp: uf_step_def uf_runEffects_progress hk_state_flipCard flipCard_def)
next
  case NextCard
  with assms(2) obtain h1 where h1: "uf_nextCard props rs now (hk_state h) h = Some h1"
    and h': "h' = uf_runEffects props now isoNow h True h1"
    by (auto simp: uf_step_def)
  from hk_state_nextCard[OF h1] assms(1) show ?thesis unfolding h'
    by (auto simp: uf_runEffects_progress)
next
  case PreviousCard
  with assms show ?thesis
    by (auto simp: uf_step_def uf_runEffects_progress hk_state_previousCard previousCard_def)
next
  case (GoToCard i)
  with assms show ?thesis
    by (auto simp: uf_step_def uf_runEffects_progress hk_state_goToCard goToCard_def)
next
  case ResetDeck
  with assms show ?thesis
    by (auto simp: uf_step_def uf_runEffects_progress hk_state_resetDeck initialState_def
        calculateProgress_0)
qed

lemma uf_next_index_mono:
  assumes "studyMode props \<noteq> Random"
    and "currentCardIndex (hk_state h) \<le> int (length (deck_cards props))"
    and "uf_step props rs now isoNow NextCard h = Some h'"
  shows "currentCardIndex (hk_state h) \<le> currentCardIndex (hk_state h')"
  using assms
  by (cases "studyMode props") (auto simp: uf_step_def uf_nextCard_def split: if_splits)

lemma uf_prev_index_mono:
  assumes "uf_step props rs now isoNow PreviousCard h = Some h'"
  shows "currentCardIndex (hk_state h') \<le> currentCardIndex (hk_state h)"
  using assms
  by (auto simp: uf_step_def hk_state_previousCard previousCard_def split: if_splits)

lemma mount_settled: "progress (mount cards) = progress (progressEffect cards (mount cards))"
  by (simp add: mount_def progressEffect_def completionEffect_def initialState_def)

lemma uf_mount_settled:
  "progress (hk_state (uf_mount props now isoNow kv)) =
     real_of_int (calculateProgress (currentCardIndex (hk_state (uf_mount props now isoNow kv)))
        (int (length (deck_cards props))))"
  by (simp add: uf_mount_def hk_state_completionEffect hk_state_progressEffect initialState_def)

lemma step3: "step (sampleDeck 3) NextCard (mount (sampleDeck 3)) =
  \<lparr>currentCardIndex = 1, isFlipped = False, isComplete = False,
   progress = js_mul (js_div 1 3) 100\<rparr>"
  by (simp add: step_def runEffects_def nextCard_def mount_def completionEffect_def
      progressEffect_def initialState_def length_sampleDeck)

lemma percent_1_3: "js_mul (js_div 1 3) 100 = 2345624805922133 / 70368744177664"
  by (simp only: js_div_1_3 js_mul_1_3_100)

lemma calculateProgress_1_3: "calculateProgress 1 3 = 33"
  by (simp add: calculateProgress_def Math_round_def js_div_1_3 js_mul_1_3_100)

text \<open>
  The percentage of \<open>useFlashcards\<close> is the rounding of a double that has been rounded
  twice already, and can be one less than the rounding of the exact quotient: at index
  \<open>23\<close> of \<open>40\<close> cards the double is \<open>57.49999999999999\<close> and the percentage \<open>57\<close>, where the
  exact value \<open>57.5\<close> rounds to \<open>58\<close>.
\<close>

lemma calculateProgress_23_40:
  "calculateProgress 23 40 = 57 \<and> Math_round (23 / 40 * 100) = 58"
  by (simp add: calculateProgress_def Math_round_def js_div_23_40 js_mul_23_40_100)

text \<open>
  C6, as stated, fails for \<open>useFlashcardState\<close>: after the first \<open>nextCard\<close> on a three-card
  deck the progress is the double \<open>33.33333333333333\<close> (the fraction below), not
  \<open>round(1 / 3 * 100) = 33\<close>. Its progress effect does not round; the progress bar rounds
  for display.
\<close>

theorem progress_is_not_rounded:
  "currentCardIndex (step (sampleDeck 3) NextCard (mount (sampleDeck 3))) = 1 \<and>
   progress (step (sampleDeck 3) NextCard (mount (sampleDeck 3)))
     = 2345624805922133 / 70368744177664 \<and>
   Math_round (1 / 3 * 100) = 33 \<and>
   progress (step (sampleDeck 3) NextCard (mount (sampleDeck 3))) \<noteq> 33"
  by (simp add: step3 percent_1_3 Math_round_def)

text \<open>
  C6, amended: once the effects of the render have run, after every operation (so after
  every advance, retreat and jump) the progress of \<open>useFlashcardState\<close> is
  \<open>(currentCardIndex / cards.length) * 100\<close> in double arithmetic, not rounded to an
  integer, and that of \<open>useFlashcards\<close> is
  \<open>calculateProgress(currentCardIndex, cards.length)\<close>, which is \<open>Math.round\<close> of that double;
  both are \<open>0\<close> on an empty deck. The double is within \<open>2^(-45)\<close> of the exact percentage,
  and its rounding within \<open>1/2 + 2^(-45)\<close>. In both hooks the progress lies in \<open>[0, 100]\<close>,
  does not decrease under \<open>nextCard\<close> (for \<open>useFlashcards\<close>: outside the random study mode)
  and does not increase under \<open>previousCard\<close>.
\<close>

theorem progress_after_navigation:
  "progress (mount cards) = progress (progressEffect cards (mount cards)) \<and>
   (sessionInvariant cards s \<and> progress s = progress (progressEffect cards s) \<longrightarrow>
      progress (step cards a s) =
        (if cards \<noteq> []
         then js_mul (js_div (real_of_int (currentCardIndex (step cards a s)))
                             (real (length cards))) 100
         else 0) \<and>
      0 \<le> progress (step cards a s) \<and> progress (step cards a s) \<le> 100 \<and>
      progress s \<le> progress (step cards NextCard s) \<and>
      progress (step cards PreviousCard s) \<le> progress s) \<and>
   (0 \<le> i \<and> i \<le> n \<and> 0 < n \<longrightarrow>
      \<bar>js_mul (js_div (real_of_int i) (real_of_int n)) 100
         - real_of_int i / real_of_int n * 100\<bar> \<le> 1 / 2 ^ 45 \<and>
      \<bar>real_of_int (calculateProgress i n) - real_of_int i / real_of_int n * 100\<bar>
         \<le> 1 / 2 + 1 / 2 ^ 45) \<and>
   ((\<forall>r\<in>set rs. 0 \<le> r \<and> r \<le> 1 - 1 / 2 ^ 53) \<and> ufInvariant props h \<and>
    progress (hk_state h) =
      real_of_int (calculateProgress (currentCardIndex (hk_state h))
                     (int (length (deck_cards props)))) \<and>
    uf_step props rs now isoNow a h = Some h' \<longrightarrow>
      progress (hk_state h') =
        real_of_int (calculateProgress (currentCardIndex (hk_state h'))
                       (int (length (deck_cards props)))) \<and>
      0 \<le> progress (hk_state h') \<and> progress (hk_state h') \<le> 100 \<and>
      (a = NextCard \<and> studyMode props \<noteq> Random
         \<longrightarrow> progress (hk_state h) \<le> progress (hk_state h')) \<and>
      (a = PreviousCard \<longrightarrow> progress (hk_state h') \<le> progress (hk_state h)))"
proof -
  have A: "progress (step cards a s) =
        (if cards \<noteq> []
         then js_mul (js_div (real_of_int (currentCardIndex (step cards a s)))
                             (real (length cards))) 100
         else 0) \<and>
      0 \<le> progress (step cards a s) \<and> progress (step cards a s) \<le> 100 \<and>
      progress s \<le> progress (step cards NextCard s) \<and>
      progress (step cards PreviousCard s) \<le> progress s"
    if inv: "sessionInvariant cards s" and st: "progress s = progress (progressEffect cards s)"
  proof (cases "cards = []")
    case True
    have form: "progress (step cards b s) = 0" for b
      using step_progress_settled [OF st] True by (simp add: progressEffect_progress)
    have "progress s = 0" using st True by (simp add: progressEffect_progress)
    with form True show ?thesis by simp
  next
    case False
    then have len: "0 < real (length cards)" by simp
    have form: "progress (step cards b s) =
         js_mul (js_div (real_of_int (currentCardIndex (step cards b s)))
                        (real (length cards))) 100" for b
      using step_progress_settled [OF st] False by (simp add: progressEffect_progress)
    have inv': "sessionInvariant cards (step cards b s)" for b using inv by (rule inv_step)
    have r: "0 \<le> real_of_int (currentCardIndex (step cards b s))"
      "real_of_int (currentCardIndex (step cards b s)) \<le> real (length cards)" for b
      using inv' [of b] by (simp_all add: sessionInvariant_def)
    have range: "0 \<le> progress (step cards a s) \<and> progress (step cards a s) \<le> 100"
      using percent_range [OF r [of a] len] by (simp add: form)
    from inv have le: "currentCardIndex s \<le> int (length cards)" and ge: "0 \<le> currentCardIndex s"
      by (simp_all add: sessionInvariant_def)
    have s0: "progress s =
        js_mul (js_div (real_of_int (currentCardIndex s)) (real (length cards))) 100"
      using st False by (simp add: progressEffect_progress)
    have up: "progress s \<le> progress (step cards NextCard s)"
      unfolding form s0
      using step_next_index_mono [OF le] ge len by (intro percent_mono) simp_all
    have down: "progress (step cards PreviousCard s) \<le> progress s"
      unfolding form s0
      using step_prev_index_mono [of cards s] r(1) [of PreviousCard] len
      by (intro percent_mono) simp_all
    from form [of a] range up down False show ?thesis by simp
  qed
  have B: "progress (hk_state h') =
        real_of_int (calculateProgress (currentCardIndex (hk_state h'))
                       (int (length (deck_cards props)))) \<and>
      0 \<le> progress (hk_state h') \<and> progress (hk_state h') \<le> 100 \<and>
      (a = NextCard \<and> studyMode props \<noteq> Random
         \<longrightarrow> progress (hk_state h) \<le> progress (hk_state h')) \<and>
      (a = PreviousCard \<longrightarrow> progress (hk_state h') \<le> progress (hk_state h))"
    if draws: "\<forall>r\<in>set rs. 0 \<le> r \<and> r \<le> 1 - 1 / 2 ^ 53" and inv: "ufInvariant props h"
      and st: "progress (hk_state h) =
        real_of_int (calculateProgress (currentCardIndex (hk_state h))
                       (int (length (deck_cards props))))"
      and step: "uf_step props rs now isoNow a h = Some h'"
  proof -
    note form = uf_step_progress_settled [OF st step]
    have "ufInvariant props h'" using draws inv step by (rule uf_inv_step)
    then have r: "0 \<le> currentCardIndex (hk_state h')"
      "currentCardIndex (hk_state h') \<le> int (length (deck_cards props))"
      by (simp_all add: ufInvariant_def)
    have range: "0 \<le> progress (hk_state h') \<and> progress (hk_state h') \<le> 100"
      using calculateProgress_range [OF r] by (simp add: form)
    from inv have le: "currentCardIndex (hk_state h) \<le> int (length (deck_cards props))"
      and ge: "0 \<le> currentCardIndex (hk_state h)"
      by (simp_all add: ufInvariant_def)
    have up: "progress (hk_state h) \<le> progress (hk_state h')"
      if "a = NextCard" "studyMode props \<noteq> Random"
      using calculateProgress_mono [OF ge uf_next_index_mono [OF that(2) le]] step that(1)
      by (simp add: form st)
    have down: "progress (hk_state h') \<le> progress (hk_state h)" if "a = PreviousCard"
      using calculateProgress_mono [OF r(1) uf_prev_index_mono] step that
      by (simp add: form st)
    from form range up down show ?thesis by blast
  qed
  have C: "\<bar>js_mul (js_div (real_of_int i) (real_of_int n)) 100
         - real_of_int i / real_of_int n * 100\<bar> \<le> 1 / 2 ^ 45 \<and>
      \<bar>real_of_int (calculateProgress i n) - real_of_int i / real_of_int n * 100\<bar>
         \<le> 1 / 2 + 1 / 2 ^ 45"
    if "0 \<le> i \<and> i \<le> n \<and> 0 < n"
    using that percent_error [of "real_of_int i" "real_of_int n"] calculateProgress_error [of i n]
    by simp
  from mount_settled A B C show ?thesis by blast
qed

theorem progress_after_navigation_witness:
  "sessionInvariant (sampleDeck 3) (mount (sampleDeck 3)) \<and>
   progress (mount (sampleDeck 3)) = progress (progressEffect (sampleDeck 3) (mount (sampleDeck 3))) \<and>
   progress (step (sampleDeck 3) NextCard (mount (sampleDeck 3)))
     = 2345624805922133 / 70368744177664 \<and>
   progress (step (sampleDeck 3) NextCard (mount (sampleDeck 3))) \<le> 100 \<and>
   (0::int) \<le> 23 \<and> (23::int) \<le> 40 \<and> (0::int) < 40 \<and>
   calculateProgress 23 40 = 57 \<and>
   \<bar>real_of_int (calculateProgress 23 40) - real_of_int 23 / real_of_int 40 * 100\<bar>
      \<le> 1 / 2 + 1 / 2 ^ 45 \<and>
   ufInvariant (sampleProps Sequential)
     (uf_mount (sampleProps Sequential) 1000 ''t'' emptyStorage) \<and>
   (\<exists>h'. uf_step (sampleProps Sequential) [] 1000 ''t'' NextCard
            (uf_mount (sampleProps Sequential) 1000 ''t'' emptyStorage) = Some h' \<and>
         progress (hk_state h') = 33 \<and>
         progress (hk_state (uf_mount (sampleProps Sequential) 1000 ''t'' emptyStorage))
           \<le> progress (hk_state h'))"
proof -
  let ?P = "sampleProps Sequential"
  let ?h = "uf_mount ?P 1000 ''t'' emptyStorage"
  let ?h' = "the (uf_step ?P [] 1000 ''t'' NextCard ?h)"
  note t = progress_after_navigation [where cards = "sampleDeck 3" and s = "mount (sampleDeck 3)"
      and a = NextCard and props = ?P and now = 1000 and isoNow = "''t''" and rs = "[]"
      and h = ?h and h' = ?h' and i = 23 and n = 40]
  have inv: "sessionInvariant (sampleDeck 3) (mount (sampleDeck 3))" by (rule inv_mount)
  have uinv: "ufInvariant ?P ?h" by (rule uf_inv_mount)
  have uset: "progress (hk_state ?h) =
      real_of_int (calculateProgress (currentCardIndex (hk_state ?h))
                     (int (length (deck_cards ?P))))" by (rule uf_mount_settled)
  have e: "uf_step ?P [] 1000 ''t'' NextCard ?h = Some ?h'"
    by (simp add: uf_step_def uf_nextCard_def sampleProps_def)
  have i: "currentCardIndex (hk_state ?h') = 1"
    by (simp add: uf_step_def uf_nextCard_def sampleProps_def length_sampleDeck uf_mount_def
        hk_state_completionEffect hk_state_progressEffect initialState_def)
  have l: "int (length (deck_cards ?P)) = 3" by (simp add: sampleProps_def length_sampleDeck)
  have dr: "\<forall>r\<in>set ([] :: real list). 0 \<le> r \<and> r \<le> 1 - 1 / 2 ^ 53" by simp
  have nr: "NextCard = NextCard \<and> studyMode ?P \<noteq> Random" by (simp add: sampleProps_def)
  have ne: "sampleDeck 3 \<noteq> []" by (simp add: sampleDeck_def)
  have b: "(0::int) \<le> 23 \<and> (23::int) \<le> 40 \<and> (0::int) < 40" by simp
  from t have st: "progress (mount (sampleDeck 3))
      = progress (progressEffect (sampleDeck 3) (mount (sampleDeck 3)))" by blast
  from t inv st ne have "progress (step (sampleDeck 3) NextCard (mount (sampleDeck 3))) =
      js_mul (js_div (real_of_int (currentCardIndex
        (step (sampleDeck 3) NextCard (mount (sampleDeck 3))))) (real (length (sampleDeck 3)))) 100"
    by presburger
  then have q: "progress (step (sampleDeck 3) NextCard (mount (sampleDeck 3)))
      = 2345624805922133 / 70368744177664"
    by (simp add: step3 length_sampleDeck percent_1_3)
  from t inv st have q2: "progress (step (sampleDeck 3) NextCard (mount (sampleDeck 3))) \<le> 100"
    by blast
  from t b have er: "\<bar>real_of_int (calculateProgress 23 40)
      - real_of_int 23 / real_of_int 40 * 100\<bar> \<le> 1 / 2 + 1 / 2 ^ 45" by blast
  have c57: "calculateProgress 23 40 = 57" using calculateProgress_23_40 by blast
  from t dr uinv uset e have "progress (hk_state ?h') =
      real_of_int (calculateProgress (currentCardIndex (hk_state ?h'))
                     (int (length (deck_cards ?P))))" by blast
  then have p: "progress (hk_state ?h') = 33" by (simp only: i l calculateProgress_1_3 of_int_numeral)
  from t dr uinv uset e nr have m: "progress (hk_state ?h) \<le> progress (hk_state ?h')" by blast
  from inv st q q2 b c57 er uinv e p m show ?thesis by blast
qed

subsection \<open>Swipe direction (C1)\<close>

lemma mount3: "mount (sampleDeck 3) = initialState"
  by (simp add: mount_def completionEffect_def progressEffect_def initialState_def
      length_sampleDeck js_div_def js_mul_def)

text \<open>
  In the gesture hook \<open>useFlashcardGestures\<close>, which the screen does not attach, the
  callbacks are the other way round: \<open>onSwipeLeft\<close> is called only for a drag to the
  right, \<open>onSwipeRight\<close> only for a drag to the left.
\<close>

lemma hook_direction:
  assumes "0 \<le> W"
  shows "(panGestureHandler_onEnd W disabled canLeft canRight ev = CallSwipeLeft
            \<longrightarrow> translationX ev > 0 \<and> canLeft) \<and>
         (panGestureHandler_onEnd W disabled canLeft canRight ev = CallSwipeRight
            \<longrightarrow> translationX ev < 0 \<and> canRight)"
  using assms
  by (auto simp: panGestureHandler_onEnd_def shouldSwipeLeft_def shouldSwipeRight_def
      SWIPE_THRESHOLD_def split: if_splits)

lemma swipeTimeout_handleSwipeRight:
  assumes "scr_pending scr = None"
  shows "scr_state (swipeTimeout cards (handleSwipeRight cards now scr)) =
     (if \<not> (now - lastSwipeTime scr < SWIPE_COOLDOWN \<or> scr_isAnimating scr)
         \<and> canGoPrevious (scr_state scr)
      then screenEffects cards (scr_state scr) (previousCard (scr_state scr) (scr_state scr))
      else scr_state scr)"
  using assms by (simp add: swipeTimeout_def handleSwipeRight_def)

lemma swipeTimeout_handleSwipeLeft:
  assumes "scr_pending scr = None"
  shows "scr_state (swipeTimeout cards (handleSwipeLeft cards now scr)) =
     (if \<not> (now - lastSwipeTime scr < SWIPE_COOLDOWN \<or> scr_isAnimating scr)
         \<and> canGoNext cards (scr_state scr)
      then screenEffects cards (scr_state scr) (nextCard cards (scr_state scr) (scr_state scr))
      else scr_state scr)"
  using assms by (simp add: swipeTimeout_def handleSwipeLeft_def)

text \<open>
  C1, as stated, fails on the recogniser that the screen mounts, that of the card
  component: it tests the velocity by itself, so a drag that ends \<open>10\<close> to the right of
  its start while moving left at \<open>600\<close> is a swipe with a positive \<open>\<Delta>x\<close> and yet calls
  \<open>onSwipeLeft\<close>; on a three-card deck at index \<open>0\<close> the session advances to index \<open>1\<close>.
\<close>

theorem rightward_drag_moving_left_advances:
  "(0::real) < translationX \<lparr>translationX = 10, translationY = 0, velocityX = - 600\<rparr> \<and>
   handlePanGestureStateChange 400 True
     \<lparr>translationX = 10, translationY = 0, velocityX = - 600\<rparr> = CallSwipeLeft \<and>
   currentCardIndex (scr_state (swipeTimeout (sampleDeck 3)
     (panEnd_card 400 (sampleDeck 3) 1000
        \<lparr>translationX = 10, translationY = 0, velocityX = - 600\<rparr>
        (initialScreen (sampleDeck 3))))) = 1"
  by (simp add: panEnd_card_def deliver_def getCurrentCard_def canGoNext_def
      initialScreen_def mount3 initialState_def length_sampleDeck swipeTimeout_def
      handlePanGestureStateChange_def handleSwipeLeft_def SWIPE_COOLDOWN_def
      screenEffects_def nextCard_def completionEffect_def progressEffect_def)

text \<open>
  C1, amended, for the recogniser of the card component, the one that the screen mounts.
  A finished drag calls \<open>onSwipeRight\<close> exactly when \<open>\<Delta>x\<close> exceeds a quarter of the window
  width or \<open>velocity_x\<close> exceeds \<open>500\<close>, and otherwise calls \<open>onSwipeLeft\<close> exactly when \<open>\<Delta>x\<close>
  is below minus a quarter of the width or \<open>velocity_x\<close> is below \<open>-500\<close>; so a swipe
  whose velocity does not point against its displacement goes right for \<open>\<Delta>x > 0\<close> and
  left for \<open>\<Delta>x < 0\<close>. \<open>onSwipeRight\<close> is \<open>handleSwipeRight\<close>: unless it is dropped by the
  cooldown or the running animation, it performs \<open>previousCard\<close> when \<open>canGoPrevious\<close> holds
  and leaves the session as it is otherwise; \<open>onSwipeLeft\<close> is \<open>handleSwipeLeft\<close>, with
  \<open>nextCard\<close> and \<open>canGoNext\<close>. The drag with \<open>\<Delta>x = -60\<close> and \<open>velocity_x = -600\<close> on a
  three-card deck at index \<open>0\<close> ends at index \<open>1\<close> with \<open>isFlipped = false\<close>, whatever the
  width of the window.
\<close>

theorem card_swipe_direction:
  "(handlePanGestureStateChange W True ev = CallSwipeRight \<longleftrightarrow>
      translationX ev > W * 0.25 \<or> velocityX ev > 500) \<and>
   (handlePanGestureStateChange W True ev = CallSwipeLeft \<longleftrightarrow>
      \<not> (translationX ev > W * 0.25 \<or> velocityX ev > 500) \<and>
      (translationX ev < - (W * 0.25) \<or> velocityX ev < - 500)) \<and>
   (0 \<le> W \<and> isSwipe (handlePanGestureStateChange W True ev) \<and>
    translationX ev > 0 \<and> velocityX ev \<ge> 0 \<longrightarrow>
      handlePanGestureStateChange W True ev = CallSwipeRight) \<and>
   (0 \<le> W \<and> isSwipe (handlePanGestureStateChange W True ev) \<and>
    translationX ev < 0 \<and> velocityX ev \<le> 0 \<longrightarrow>
      handlePanGestureStateChange W True ev = CallSwipeLeft) \<and>
   (scr_pending scr = None \<longrightarrow>
      scr_state (swipeTimeout cards (deliver cards now CallSwipeRight scr)) =
        (if \<not> (now - lastSwipeTime scr < SWIPE_COOLDOWN \<or> scr_isAnimating scr)
            \<and> canGoPrevious (scr_state scr)
         then screenEffects cards (scr_state scr)
                (previousCard (scr_state scr) (scr_state scr))
         else scr_state scr) \<and>
      scr_state (swipeTimeout cards (deliver cards now CallSwipeLeft scr)) =
        (if \<not> (now - lastSwipeTime scr < SWIPE_COOLDOWN \<or> scr_isAnimating scr)
            \<and> canGoNext cards (scr_state scr)
         then screenEffects cards (scr_state scr)
                (nextCard cards (scr_state scr) (scr_state scr))
         else scr_state scr)) \<and>
   (0 \<le> W \<longrightarrow>
      scr_state (swipeTimeout (sampleDeck 3)
        (panEnd_card W (sampleDeck 3) 1000
           \<lparr>translationX = - 60, translationY = 0, velocityX = - 600\<rparr>
           (initialScreen (sampleDeck 3))))
        = \<lparr>currentCardIndex = 1, isFlipped = False, isComplete = False,
           progress = js_mul (js_div 1 3) 100\<rparr>)"
proof -
  have 1: "handlePanGestureStateChange W True ev = CallSwipeRight \<longleftrightarrow>
      translationX ev > W * 0.25 \<or> velocityX ev > 500"
    by (simp add: handlePanGestureStateChange_def Let_def)
  have 2: "handlePanGestureStateChange W True ev = CallSwipeLeft \<longleftrightarrow>
      \<not> (translationX ev > W * 0.25 \<or> velocityX ev > 500) \<and>
      (translationX ev < - (W * 0.25) \<or> velocityX ev < - 500)"
    by (simp add: handlePanGestureStateChange_def Let_def)
  have 3: "handlePanGestureStateChange W True ev = CallSwipeRight"
    if "0 \<le> W \<and> isSwipe (handlePanGestureStateChange W True ev) \<and>
        translationX ev > 0 \<and> velocityX ev \<ge> 0"
    using that by (auto simp: isSwipe_def handlePanGestureStateChange_def Let_def split: if_splits)
  have 4: "handlePanGestureStateChange W True ev = CallSwipeLeft"
    if "0 \<le> W \<and> isSwipe (handlePanGestureStateChange W True ev) \<and>
        translationX ev < 0 \<and> velocityX ev \<le> 0"
    using that by (auto simp: isSwipe_def handlePanGestureStateChange_def Let_def split: if_splits)
  have 5: "scr_state (swipeTimeout cards (deliver cards now CallSwipeRight scr)) =
        (if \<not> (now - lastSwipeTime scr < SWIPE_COOLDOWN \<or> scr_isAnimating scr)
            \<and> canGoPrevious (scr_state scr)
         then screenEffects cards (scr_state scr)
                (previousCard (scr_state scr) (scr_state scr))
         else scr_state scr) \<and>
      scr_state (swipeTimeout cards (deliver cards now CallSwipeLeft scr)) =
        (if \<not> (now - lastSwipeTime scr < SWIPE_COOLDOWN \<or> scr_isAnimating scr)
            \<and> canGoNext cards (scr_state scr)
         then screenEffects cards (scr_state scr)
                (nextCard cards (scr_state scr) (scr_state scr))
         else scr_state scr)"
    if "scr_pending scr = None"
    using swipeTimeout_handleSwipeRight [OF that] swipeTimeout_handleSwipeLeft [OF that]
    by (simp add: deliver_def)
  have 6: "scr_state (swipeTimeout (sampleDeck 3)
        (panEnd_card W (sampleDeck 3) 1000
           \<lparr>translationX = - 60, translationY = 0, velocityX = - 600\<rparr>
           (initialScreen (sampleDeck 3))))
        = \<lparr>currentCardIndex = 1, isFlipped = False, isComplete = False,
           progress = js_mul (js_div 1 3) 100\<rparr>"
    if "0 \<le> W"
    using that
    by (simp add: panEnd_card_def deliver_def getCurrentCard_def canGoNext_def
      initialScreen_def mount3 initialState_def length_sampleDeck swipeTimeout_def
      handlePanGestureStateChange_def handleSwipeLeft_def SWIPE_COOLDOWN_def
      screenEffects_def nextCard_def completionEffect_def progressEffect_def)
  from 1 2 3 4 5 6 show ?thesis by blast
qed

theorem card_swipe_direction_witness:
  "(0::real) \<le> 400 \<and>
   isSwipe (handlePanGestureStateChange 400 True
      \<lparr>translationX = - 60, translationY = 0, velocityX = - 600\<rparr>) \<and>
   translationX \<lparr>translationX = - 60, translationY = 0, velocityX = - 600\<rparr> < 0 \<and>
   velocityX \<lparr>translationX = - 60, translationY = 0, velocityX = - 600\<rparr> \<le> 0 \<and>
   handlePanGestureStateChange 400 True
      \<lparr>translationX = - 60, translationY = 0, velocityX = - 600\<rparr> = CallSwipeLeft \<and>
   isSwipe (handlePanGestureStateChange 400 True
      \<lparr>translationX = 120, translationY = 0, velocityX = 50\<rparr>) \<and>
   translationX \<lparr>translationX = 120, translationY = 0, velocityX = 50\<rparr> > 0 \<and>
   velocityX \<lparr>translationX = 120, translationY = 0, velocityX = 50\<rparr> \<ge> 0 \<and>
   handlePanGestureStateChange 400 True
      \<lparr>translationX = 120, translationY = 0, velocityX = 50\<rparr> = CallSwipeRight \<and>
   scr_pending (initialScreen (sampleDeck 3)) = None \<and>
   scr_state (swipeTimeout (sampleDeck 3)
       (deliver (sampleDeck 3) 1000 CallSwipeRight (initialScreen (sampleDeck 3))))
     = scr_state (initialScreen (sampleDeck 3)) \<and>
   scr_state (swipeTimeout (sampleDeck 3)
       (deliver (sampleDeck 3) 1000 CallSwipeLeft (initialScreen (sampleDeck 3))))
     = \<lparr>currentCardIndex = 1, isFlipped = False, isComplete = False,
        progress = js_mul (js_div 1 3) 100\<rparr> \<and>
   scr_state (swipeTimeout (sampleDeck 3)
       (panEnd_card 400 (sampleDeck 3) 1000
          \<lparr>translationX = - 60, translationY = 0, velocityX = - 600\<rparr>
          (initialScreen (sampleDeck 3))))
     = \<lparr>currentCardIndex = 1, isFlipped = False, isComplete = False,
        progress = js_mul (js_div 1 3) 100\<rparr>"
proof -
  let ?l = "\<lparr>translationX = - 60, translationY = 0, velocityX = - 600\<rparr>"
  let ?r = "\<lparr>translationX = 120, translationY = 0, velocityX = 50\<rparr>"
  let ?s = "initialScreen (sampleDeck 3)"
  note t = card_swipe_direction [where W = 400 and ev = ?l and scr = ?s
      and cards = "sampleDeck 3" and now = 1000]
  note u = card_swipe_direction [where W = 400 and ev = ?r and scr = ?s
      and cards = "sampleDeck 3" and now = 1000]
  have w: "(0::real) \<le> 400" by simp
  have l: "isSwipe (handlePanGestureStateChange 400 True ?l)" "translationX ?l < 0"
    "velocityX ?l \<le> 0"
    by (simp_all add: isSwipe_def handlePanGestureStateChange_def)
  have r: "isSwipe (handlePanGestureStateChange 400 True ?r)" "translationX ?r > 0"
    "velocityX ?r \<ge> 0"
    by (simp_all add: isSwipe_def handlePanGestureStateChange_def)
  have p: "scr_pending ?s = None" by (simp add: initialScreen_def)
  from t w l have 1: "handlePanGestureStateChange 400 True ?l = CallSwipeLeft" by blast
  from u w r have 2: "handlePanGestureStateChange 400 True ?r = CallSwipeRight" by blast
  from t p have "scr_state (swipeTimeout (sampleDeck 3)
       (deliver (sampleDeck 3) 1000 CallSwipeRight ?s)) =
        (if \<not> (1000 - lastSwipeTime ?s < SWIPE_COOLDOWN \<or> scr_isAnimating ?s)
            \<and> canGoPrevious (scr_state ?s)
         then screenEffects (sampleDeck 3) (scr_state ?s)
                (previousCard (scr_state ?s) (scr_state ?s))
         else scr_state ?s)" by blast
  then have 3: "scr_state (swipeTimeout (sampleDeck 3)
       (deliver (sampleDeck 3) 1000 CallSwipeRight ?s)) = scr_state ?s"
    by (simp add: initialScreen_def mount3 initialState_def canGoPrevious_def)
  from t p have "scr_state (swipeTimeout (sampleDeck 3)
       (deliver (sampleDeck 3) 1000 CallSwipeLeft ?s)) =
        (if \<not> (1000 - lastSwipeTime ?s < SWIPE_COOLDOWN \<or> scr_isAnimating ?s)
            \<and> canGoNext (sampleDeck 3) (scr_state ?s)
         then screenEffects (sampleDeck 3) (scr_state ?s)
                (nextCard (sampleDeck 3) (scr_state ?s) (scr_state ?s))
         else scr_state ?s)" by blast
  then have 4: "scr_state (swipeTimeout (sampleDeck 3)
       (deliver (sampleDeck 3) 1000 CallSwipeLeft ?s))
     = \<lparr>currentCardIndex = 1, isFlipped = False, isComplete = False,
        progress = js_mul (js_div 1 3) 100\<rparr>"
    by (simp add: initialScreen_def mount3 initialState_def canGoNext_def length_sampleDeck
        SWIPE_COOLDOWN_def screenEffects_def nextCard_def completionEffect_def
        progressEffect_def)
  from t w have 5: "scr_state (swipeTimeout (sampleDeck 3)
       (panEnd_card 400 (sampleDeck 3) 1000 ?l ?s))
     = \<lparr>currentCardIndex = 1, isFlipped = False, isComplete = False,
        progress = js_mul (js_div 1 3) 100\<rparr>" by blast
  from w l r p 1 2 3 4 5 show ?thesis by blast
qed

subsection \<open>Swipe classification (C4)\<close>

lemma literal_0_7_value: "literal_0_7 = 3152519739159347 / 4503599627370496"
  unfolding literal_0_7_def
  using double_eqI [where x = "7 / 10" and k = "- 1" and n = 6305039478318694]
  by simp

lemma literal_0_7_nonneg: "0 \<le> literal_0_7"
  by (simp add: literal_0_7_value)

text \<open>
  The hook's test of the vertical drift is made in double arithmetic: \<open>90 * 0.7\<close> is
  \<open>62.99999999999999\<close>, so a drag with \<open>\<Delta>x = 90\<close> and \<open>\<Delta>y = 63\<close> is rejected, although
  \<open>63 \<le> 0.7 * 90\<close> in exact arithmetic.
\<close>

lemma js_mul_90_0_7: "js_mul 90 literal_0_7 = 8866461766385663 / 140737488355328"
  unfolding js_mul_def literal_0_7_value
  using double_eqI [where x = "90 * (3152519739159347 / 4503599627370496)" and k = 5
      and n = 8866461766385663]
  by simp

lemma hook_drift_test_in_doubles:
  "panGestureHandler_onEnd 200 False True True
     \<lparr>translationX = 90, translationY = 63, velocityX = 0\<rparr> = SnapBack \<and>
   (63 :: real) \<le> 0.7 * 90"
  by (simp add: panGestureHandler_onEnd_def js_mul_90_0_7)

lemma drift_product_error:
  assumes "2 powi (- 1021) \<le> x"
  shows "\<bar>js_mul x literal_0_7 - 0.7 * x\<bar> \<le> x / 2 ^ 52"
proof -
  define c :: real where "c = 3152519739159347 / 4503599627370496"
  have "(2::real) powi (- 1021) = 2 * 2 powi (- 1022)"
    using power_int_add [of "2::real" 1 "- 1022"] by simp
  with assms have x: "2 * 2 powi (- 1022) \<le> x" by simp
  have p: "(0::real) < 2 powi (- 1022)" by (rule pos2)
  have "x / 2 \<le> x * c" using x p by (simp add: c_def)
  with x have n: "2 powi (- 1022) \<le> x * c" by linarith
  have x0: "0 \<le> x" using x p by linarith
  define e where "e = x / 2 ^ 54"
  have e0: "0 \<le> e" using x0 by (simp add: e_def)
  have c: "c \<le> 7 / 10" "7 / 10 - c \<le> 1 / 2 ^ 54" "c \<le> 1" by (simp_all add: c_def)
  have "x * c \<le> x * 1" using c(3) x0 by (rule mult_left_mono)
  then have "x * c / 2 ^ 53 \<le> x / 2 ^ 53" by (simp add: divide_right_mono)
  also have "x / 2 ^ 53 = 2 * e" by (simp add: e_def)
  finally have "\<bar>double (x * c) - x * c\<bar> \<le> 2 * e"
    using double_relative_error [OF n] by linarith
  moreover have "x * (7 / 10 - c) \<le> x * (1 / 2 ^ 54)" using c(2) x0 by (rule mult_left_mono)
  then have "7 / 10 * x - x * c \<le> e" by (simp add: e_def algebra_simps)
  moreover have "0 \<le> x * (7 / 10 - c)" using c(1) x0 by simp
  then have "x * c \<le> 7 / 10 * x" by (simp add: algebra_simps)
  ultimately have "\<bar>double (x * c) - 7 / 10 * x\<bar> \<le> 4 * e" using e0 by linarith
  also have "4 * e = x / 2 ^ 52" by (simp add: e_def)
  finally have "\<bar>double (x * c) - 0.7 * x\<bar> \<le> x / 2 ^ 52" by simp
  then show ?thesis by (simp add: js_mul_def literal_0_7_value c_def)
qed

text \<open>
  C4, as stated, fails. On the recogniser that the screen mounts, that of the card
  component, a vertical-dominant drag is a swipe like any other: with \<open>\<Delta>x = -40\<close>,
  \<open>\<Delta>y = 80\<close> and \<open>velocity_x = -600\<close> the card calls \<open>onSwipeLeft\<close>, and on a three-card deck
  at index \<open>0\<close> the session advances to index \<open>1\<close>. And in the gesture hook the velocity
  alone does not make a swipe: a drag with \<open>\<Delta>x = 40\<close>, \<open>\<Delta>y = 0\<close> and \<open>velocity_x = 1000\<close> on a
  window of width \<open>400\<close> satisfies the stated criterion, but the hook springs the card
  back, because its velocity test also requires \<open>|\<Delta>x| > 50\<close>.
\<close>

theorem vertical_drag_advances_on_the_card:
  "\<bar>translationY \<lparr>translationX = - 40, translationY = 80, velocityX = - 600\<rparr>\<bar>
     > 0.7 * \<bar>translationX \<lparr>translationX = - 40, translationY = 80, velocityX = - 600\<rparr>\<bar> \<and>
   handlePanGestureStateChange 400 True
     \<lparr>translationX = - 40, translationY = 80, velocityX = - 600\<rparr> = CallSwipeLeft \<and>
   currentCardIndex (scr_state (swipeTimeout (sampleDeck 3)
     (panEnd_card 400 (sampleDeck 3) 1000
        \<lparr>translationX = - 40, translationY = 80, velocityX = - 600\<rparr>
        (initialScreen (sampleDeck 3))))) = 1 \<and>
   spec_isSwipe 400 \<lparr>translationX = 40, translationY = 0, velocityX = 1000\<rparr> \<and>
   panGestureHandler_onEnd 400 False True True
     \<lparr>translationX = 40, translationY = 0, velocityX = 1000\<rparr> = SnapBack"
proof -
  have "0 \<le> js_mul 40 literal_0_7"
    unfolding js_mul_def using literal_0_7_nonneg by (intro double_nonneg) simp
  then have h: "panGestureHandler_onEnd 400 False True True
     \<lparr>translationX = 40, translationY = 0, velocityX = 1000\<rparr> = SnapBack"
    by (simp add: panGestureHandler_onEnd_def shouldSwipeLeft_def shouldSwipeRight_def
        SWIPE_THRESHOLD_def SWIPE_VELOCITY_THRESHOLD_def)
  have c: "\<bar>translationY \<lparr>translationX = - 40, translationY = 80, velocityX = - 600\<rparr>\<bar>
     > 0.7 * \<bar>translationX \<lparr>translationX = - 40, translationY = 80, velocityX = - 600\<rparr>\<bar> \<and>
   handlePanGestureStateChange 400 True
     \<lparr>translationX = - 40, translationY = 80, velocityX = - 600\<rparr> = CallSwipeLeft \<and>
   currentCardIndex (scr_state (swipeTimeout (sampleDeck 3)
     (panEnd_card 400 (sampleDeck 3) 1000
        \<lparr>translationX = - 40, translationY = 80, velocityX = - 600\<rparr>
        (initialScreen (sampleDeck 3))))) = 1 \<and>
   spec_isSwipe 400 \<lparr>translationX = 40, translationY = 0, velocityX = 1000\<rparr>"
    by (simp add: panEnd_card_def deliver_def getCurrentCard_def canGoNext_def
      initialScreen_def mount3 initialState_def length_sampleDeck swipeTimeout_def
      handlePanGestureStateChange_def handleSwipeLeft_def SWIPE_COOLDOWN_def
      screenEffects_def nextCard_def completionEffect_def progressEffect_def
      spec_isSwipe_def SWIPE_THRESHOLD_def SWIPE_VELOCITY_THRESHOLD_def)
  from c h show ?thesis by blast
qed

text \<open>
  C4, amended. The recogniser of the card component, the one that the screen mounts,
  classifies a finished drag as a swipe exactly when \<open>|\<Delta>x|\<close> exceeds a quarter of the
  window width or \<open>|velocity_x| > 500\<close>; it does not read \<open>\<Delta>y\<close>, so the vertical displacement
  changes neither the classification nor what the screen does with the drag. The
  gesture hook \<open>useFlashcardGestures\<close>, when enabled, classifies a finished drag as a swipe
  exactly when \<open>|\<Delta>y|\<close> does not exceed the double product \<open>|\<Delta>x| * 0.7\<close> and, for one of
  the two directions, the displacement exceeds a quarter of the window width, or
  exceeds \<open>50\<close> with a velocity beyond \<open>300\<close> in the same direction, and the callback of
  that direction is enabled; every drag whose \<open>|\<Delta>y|\<close> exceeds that product makes the hook
  spring the card back. The double product differs from \<open>0.7 |\<Delta>x|\<close> by at most
  \<open>|\<Delta>x| / 2^52\<close>.
\<close>

theorem swipe_classification:
  "(isSwipe (handlePanGestureStateChange W True ev) \<longleftrightarrow>
      \<bar>translationX ev\<bar> > W * 0.25 \<or> \<bar>velocityX ev\<bar> > 500) \<and>
   handlePanGestureStateChange W True (ev\<lparr>translationY := y\<rparr>)
     = handlePanGestureStateChange W True ev \<and>
   panEnd_card W cards now (ev\<lparr>translationY := y\<rparr>) scr = panEnd_card W cards now ev scr \<and>
   (isSwipe (panGestureHandler_onEnd W False canLeft canRight ev) \<longleftrightarrow>
      \<not> \<bar>translationY ev\<bar> > js_mul \<bar>translationX ev\<bar> literal_0_7 \<and>
      ((translationX ev > W * 0.25 \<or> (translationX ev > 50 \<and> velocityX ev > 300)) \<and> canLeft \<or>
       (translationX ev < - (W * 0.25) \<or> (translationX ev < - 50 \<and> velocityX ev < - 300))
          \<and> canRight)) \<and>
   (\<bar>translationY ev\<bar> > js_mul \<bar>translationX ev\<bar> literal_0_7 \<longrightarrow>
      panGestureHandler_onEnd W False canLeft canRight ev = SnapBack) \<and>
   (2 powi (- 1021) \<le> \<bar>translationX ev\<bar> \<longrightarrow>
      \<bar>js_mul \<bar>translationX ev\<bar> literal_0_7 - 0.7 * \<bar>translationX ev\<bar>\<bar>
        \<le> \<bar>translationX ev\<bar> / 2 ^ 52)"
proof -
  have 1: "isSwipe (handlePanGestureStateChange W True ev) \<longleftrightarrow>
      \<bar>translationX ev\<bar> > W * 0.25 \<or> \<bar>velocityX ev\<bar> > 500"
    by (auto simp: isSwipe_def handlePanGestureStateChange_def Let_def)
  have 2: "handlePanGestureStateChange W True (ev\<lparr>translationY := y\<rparr>)
     = handlePanGestureStateChange W True ev"
    by (simp add: handlePanGestureStateChange_def)
  have 3: "panEnd_card W cards now (ev\<lparr>translationY := y\<rparr>) scr
     = panEnd_card W cards now ev scr"
    by (simp only: panEnd_card_def 2)
  have 4: "isSwipe (panGestureHandler_onEnd W False canLeft canRight ev) \<longleftrightarrow>
      \<not> \<bar>translationY ev\<bar> > js_mul \<bar>translationX ev\<bar> literal_0_7 \<and>
      ((translationX ev > W * 0.25 \<or> (translationX ev > 50 \<and> velocityX ev > 300)) \<and> canLeft \<or>
       (translationX ev < - (W * 0.25) \<or> (translationX ev < - 50 \<and> velocityX ev < - 300))
          \<and> canRight)"
    by (auto simp: isSwipe_def panGestureHandler_onEnd_def shouldSwipeLeft_def
        shouldSwipeRight_def SWIPE_THRESHOLD_def SWIPE_VELOCITY_THRESHOLD_def)
  have 5: "panGestureHandler_onEnd W False canLeft canRight ev = SnapBack"
    if "\<bar>translationY ev\<bar> > js_mul \<bar>translationX ev\<bar> literal_0_7"
    using that by (simp add: panGestureHandler_onEnd_def)
  have 6: "\<bar>js_mul \<bar>translationX ev\<bar> literal_0_7 - 0.7 * \<bar>translationX ev\<bar>\<bar>
        \<le> \<bar>translationX ev\<bar> / 2 ^ 52"
    if "2 powi (- 1021) \<le> \<bar>translationX ev\<bar>"
    using that by (rule drift_product_error)
  from 1 2 3 4 5 6 show ?thesis by blast
qed

theorem swipe_classification_witness:
  "\<bar>translationY \<lparr>translationX = 90, translationY = 63, velocityX = 0\<rparr>\<bar>
     > js_mul \<bar>translationX \<lparr>translationX = 90, translationY = 63, velocityX = 0\<rparr>\<bar> literal_0_7 \<and>
   panGestureHandler_onEnd 200 False True True
       \<lparr>translationX = 90, translationY = 63, velocityX = 0\<rparr> = SnapBack \<and>
   isSwipe (handlePanGestureStateChange 200 True
       \<lparr>translationX = 90, translationY = 63, velocityX = 0\<rparr>) \<and>
   2 powi (- 1021) \<le> \<bar>translationX \<lparr>translationX = - 40, translationY = 80, velocityX = 0\<rparr>\<bar> \<and>
   \<bar>translationY \<lparr>translationX = - 40, translationY = 80, velocityX = 0\<rparr>\<bar>
     > js_mul \<bar>translationX \<lparr>translationX = - 40, translationY = 80, velocityX = 0\<rparr>\<bar> literal_0_7 \<and>
   panGestureHandler_onEnd 400 False True True
       \<lparr>translationX = - 40, translationY = 80, velocityX = 0\<rparr> = SnapBack \<and>
   \<not> isSwipe (handlePanGestureStateChange 400 True
                 \<lparr>translationX = - 40, translationY = 80, velocityX = 0\<rparr>)"
proof -
  let ?a = "\<lparr>translationX = 90, translationY = 63, velocityX = 0\<rparr>"
  let ?b = "\<lparr>translationX = - 40, translationY = 80, velocityX = 0\<rparr>"
  note t = swipe_classification [where W = 200 and canLeft = True and canRight = True
      and ev = ?a and cards = "sampleDeck 3" and now = 1000
      and scr = "initialScreen (sampleDeck 3)" and y = 0]
  note u = swipe_classification [where W = 400 and canLeft = True and canRight = True
      and ev = ?b and cards = "sampleDeck 3" and now = 1000
      and scr = "initialScreen (sampleDeck 3)" and y = 0]
  have a1: "\<bar>translationY ?a\<bar> > js_mul \<bar>translationX ?a\<bar> literal_0_7"
    by (simp add: js_mul_90_0_7)
  from t a1 have a2: "panGestureHandler_onEnd 200 False True True ?a = SnapBack" by blast
  have "\<bar>translationX ?a\<bar> > 200 * 0.25" by simp
  with t have a3: "isSwipe (handlePanGestureStateChange 200 True ?a)" by blast
  have b1: "2 powi (- 1021) \<le> \<bar>translationX ?b\<bar>"
    by (simp add: power_int_minus inverse_eq_divide)
  with u have "\<bar>js_mul \<bar>translationX ?b\<bar> literal_0_7 - 0.7 * \<bar>translationX ?b\<bar>\<bar>
        \<le> \<bar>translationX ?b\<bar> / 2 ^ 52" by blast
  then have "\<bar>js_mul 40 literal_0_7 - 28\<bar> \<le> 1" by simp
  then have "js_mul 40 literal_0_7 < 80" by linarith
  then have b2: "\<bar>translationY ?b\<bar> > js_mul \<bar>translationX ?b\<bar> literal_0_7" by simp
  from u b2 have b3: "panGestureHandler_onEnd 400 False True True ?b = SnapBack" by blast
  have "\<not> (\<bar>translationX ?b\<bar> > 400 * 0.25 \<or> \<bar>velocityX ?b\<bar> > 500)" by simp
  with u have b4: "\<not> isSwipe (handlePanGestureStateChange 400 True ?b)" by blast
  from a1 a2 a3 b1 b2 b3 b4 show ?thesis by blast
qed

subsection \<open>Rapid flips (C7)\<close>

text \<open>
  C7, as stated, fails: two taps \<open>100\<close> ms apart, inside the cooldown window of \<open>150\<close> ms,
  on the first card of a three-card deck. The first sets \<open>isFlipped\<close>, the second clears
  it again: it is not dropped.
\<close>

theorem two_rapid_taps_flip_twice:
  "(100::int) - 0 < RAPID_GESTURE_COOLDOWN \<and>
   isFlipped (scr_state (tapEnd (sampleDeck 3) False 0 (initialScreen (sampleDeck 3)))) \<and>
   \<not> isFlipped (scr_state (tapEnd (sampleDeck 3) False 100
        (tapEnd (sampleDeck 3) False 0 (initialScreen (sampleDeck 3)))))"
  by (simp add: RAPID_GESTURE_COOLDOWN_def tapEnd_def tapGestureHandler_onEnd_def
      gesturesDisabled_def getCurrentCard_def handleFlip_def flipCard_def initialScreen_def
      mount3 initialState_def length_sampleDeck)

lemma gesturesDisabled_handleFlip:
  "gesturesDisabled cards (handleFlip scr) = gesturesDisabled cards scr"
  by (auto simp: gesturesDisabled_def getCurrentCard_def handleFlip_def flipCard_def)

lemma tapEnd_enabled:
  "\<not> gesturesDisabled cards scr \<Longrightarrow> tapEnd cards False t scr = handleFlip scr"
  by (simp add: tapEnd_def tapGestureHandler_onEnd_def)

lemma handleFlip_twice: "\<not> scr_isAnimating scr \<Longrightarrow> handleFlip (handleFlip scr) = scr"
  by (simp add: handleFlip_def flipCard_def)

text \<open>
  C7, amended: a flip has no cooldown. While the screen is not animating, every
  \<open>handleFlip\<close>, and every tap that reaches it through the enabled tap handler, toggles
  \<open>isFlipped\<close>, whatever the time between them, so that two of them restore the state
  they started from. The rapid-fire cooldown belongs to the swipe handlers: a swipe that
  arrives less than \<open>300\<close> ms after the last accepted one is dropped.
\<close>

theorem flip_has_no_cooldown:
  "(\<not> scr_isAnimating scr \<longrightarrow> handleFlip (handleFlip scr) = scr) \<and>
   (\<not> scr_isAnimating scr \<and> \<not> gesturesDisabled cards scr \<longrightarrow>
      isFlipped (scr_state (tapEnd cards False t1 scr)) = (\<not> isFlipped (scr_state scr)) \<and>
      tapEnd cards False t2 (tapEnd cards False t1 scr) = scr) \<and>
   (now - lastSwipeTime scr < SWIPE_COOLDOWN \<longrightarrow>
      handleSwipeLeft cards now scr = scr \<and> handleSwipeRight cards now scr = scr)"
proof -
  have 1: "handleFlip (handleFlip scr) = scr" if "\<not> scr_isAnimating scr"
    using that by (rule handleFlip_twice)
  have 2: "isFlipped (scr_state (tapEnd cards False t1 scr)) = (\<not> isFlipped (scr_state scr)) \<and>
      tapEnd cards False t2 (tapEnd cards False t1 scr) = scr"
    if "\<not> scr_isAnimating scr" "\<not> gesturesDisabled cards scr"
  proof -
    have a: "tapEnd cards False t1 scr = handleFlip scr" using that(2) by (rule tapEnd_enabled)
    have "\<not> gesturesDisabled cards (handleFlip scr)"
      using that(2) by (simp add: gesturesDisabled_handleFlip)
    then have b: "tapEnd cards False t2 (handleFlip scr) = handleFlip (handleFlip scr)"
      by (rule tapEnd_enabled)
    have c: "isFlipped (scr_state (handleFlip scr)) = (\<not> isFlipped (scr_state scr))"
      using that(1) by (simp add: handleFlip_def flipCard_def)
    from a b c handleFlip_twice [OF that(1)] show ?thesis by simp
  qed
  have 3: "handleSwipeLeft cards now scr = scr \<and> handleSwipeRight cards now scr = scr"
    if "now - lastSwipeTime scr < SWIPE_COOLDOWN"
    using that by (simp add: handleSwipeLeft_def handleSwipeRight_def)
  from 1 2 3 show ?thesis by blast
qed

theorem flip_has_no_cooldown_witness:
  "\<not> scr_isAnimating (initialScreen (sampleDeck 3)) \<and>
   \<not> gesturesDisabled (sampleDeck 3) (initialScreen (sampleDeck 3)) \<and>
   (100::int) - lastSwipeTime (initialScreen (sampleDeck 3)) < SWIPE_COOLDOWN \<and>
   tapEnd (sampleDeck 3) False 100 (tapEnd (sampleDeck 3) False 0 (initialScreen (sampleDeck 3)))
     = initialScreen (sampleDeck 3) \<and>
   handleSwipeLeft (sampleDeck 3) 100 (initialScreen (sampleDeck 3))
     = initialScreen (sampleDeck 3)"
proof -
  have a: "\<not> scr_isAnimating (initialScreen (sampleDeck 3))" by (simp add: initialScreen_def)
  have b: "\<not> gesturesDisabled (sampleDeck 3) (initialScreen (sampleDeck 3))"
    by (simp add: gesturesDisabled_def getCurrentCard_def initialScreen_def mount3
        initialState_def length_sampleDeck)
  have c: "(100::int) - lastSwipeTime (initialScreen (sampleDeck 3)) < SWIPE_COOLDOWN"
    by (simp add: initialScreen_def SWIPE_COOLDOWN_def)
  from a b c flip_has_no_cooldown [where scr = "initialScreen (sampleDeck 3)"
      and cards = "sampleDeck 3" and ?t1.0 = 0 and ?t2.0 = 100 and now = 100]
  show ?thesis by simp
qed

subsection \<open>Saving and loading progress (C9)\<close>

lemma loadProgress_saveProgress:
  assumes "available kv" and "d \<noteq> ''__proto__''"
  shows "loadProgress (saveProgress kv d p) d = Own p"
  using assms
  by (simp add: loadProgress_def saveProgress_def storage_get_def storage_set_def Let_def
      js_get_def js_set_def)

lemma loadProgress_saveProgress_other:
  assumes "d' \<noteq> d" and "FLASHCARD_PROGRESS kv \<noteq> None"
  shows "loadProgress (saveProgress kv d p) d' = loadProgress kv d'"
  using assms
  by (auto simp: loadProgress_def saveProgress_def storage_get_def storage_set_def Let_def
      js_get_def js_set_def split: option.splits)

lemma saveProgress_unavailable:
  "\<not> available kv \<Longrightarrow> saveProgress kv d p = kv \<and> loadProgress kv d = Absent"
  by (simp add: loadProgress_def saveProgress_def storage_get_def)

text \<open>
  Apart from one deck id the round trip holds: on a storage whose operations succeed,
  \<open>loadProgress\<close> after \<open>saveProgress\<close> for the same deck id returns the saved record, and
  in a table that exists already a save for another deck id changes nothing for this
  one. When the storage fails, the save is dropped and the load returns \<open>null\<close>.
\<close>

lemma progress_roundtrip:
  "(available kv \<and> d \<noteq> ''__proto__'' \<longrightarrow> loadProgress (saveProgress kv d p) d = Own p) \<and>
   (d' \<noteq> d \<and> FLASHCARD_PROGRESS kv \<noteq> None \<longrightarrow>
      loadProgress (saveProgress kv d p) d' = loadProgress kv d') \<and>
   (\<not> available kv \<longrightarrow> saveProgress kv d p = kv \<and> loadProgress kv d = Absent)"
  using loadProgress_saveProgress loadProgress_saveProgress_other saveProgress_unavailable
  by blast

text \<open>
  C9 fails for the deck id \<open>__proto__\<close>, which \<open>validateFlashcardDeck\<close> accepts like any
  other non-empty string. On an empty storage whose operations succeed,
  \<open>saveProgress('__proto__', p)\<close> stores a table without any entry, because the assignment
  \<open>existingProgresses['__proto__'] = p\<close> sets the prototype of the table instead of a
  property; \<open>loadProgress('__proto__')\<close> then returns what the fresh table inherits under
  that name, the object \<open>Object.prototype\<close>, and not the saved record. The same save and
  load under the id \<open>deck\<close> return the record.
\<close>

theorem progress_of_proto_deck_is_lost:
  "map_option dom (FLASHCARD_PROGRESS (saveProgress emptyStorage ''__proto__''
      \<lparr>progress_deckId = ''__proto__'', progress_currentCardIndex = 2,
       progress_completedAt = None, progress_totalStudyTime = 61,
       progress_correctAnswers = 3, progress_totalAnswers = 4\<rparr>)) = Some {} \<and>
   loadProgress (saveProgress emptyStorage ''__proto__''
      \<lparr>progress_deckId = ''__proto__'', progress_currentCardIndex = 2,
       progress_completedAt = None, progress_totalStudyTime = 61,
       progress_correctAnswers = 3, progress_totalAnswers = 4\<rparr>) ''__proto__''
     = Inherited ''__proto__'' \<and>
   loadProgress (saveProgress emptyStorage ''deck''
      \<lparr>progress_deckId = ''deck'', progress_currentCardIndex = 2,
       progress_completedAt = None, progress_totalStudyTime = 61,
       progress_correctAnswers = 3, progress_totalAnswers = 4\<rparr>) ''deck''
     = Own \<lparr>progress_deckId = ''deck'', progress_currentCardIndex = 2,
            progress_completedAt = None, progress_totalStudyTime = 61,
            progress_correctAnswers = 3, progress_totalAnswers = 4\<rparr>"
  by (simp add: loadProgress_def saveProgress_def storage_get_def storage_set_def Let_def
      js_get_def js_set_def emptyStorage_def Object_prototype_keys_def)

subsection \<open>Statistics on completion (C8)\<close>



lemma js_div_1000_1000: "js_div 1000 1000 = 1"
  unfolding js_div_def
  using double_eqI [where x = "1000 / 1000" and k = "0" and n = 4503599627370496]
  by simp








text \<open>
  For times, counts and scores below \<open>2^52\<close> the two double quotients of the handler
  round like the exact ones: the study time of the session is the whole number of
  seconds since its start, and the merged average is the rounding of the exact weighted
  average.
\<close>

lemma sessionStatistics_totalStudyTime:
  assumes "startTime sess \<le> now" "now - startTime sess < 2 ^ 52"
  shows "totalStudyTime (sessionStatistics props now isoNow sess) = (now - startTime sess) div 1000"
proof -
  have "\<lfloor>js_div (real_of_int (now - startTime sess)) (real_of_int 1000)\<rfloor>
      = (now - startTime sess) div 1000"
    using assms by (intro floor_js_div) simp_all
  then show ?thesis by (simp add: sessionStatistics_def Let_def)
qed

lemma mergeStatistics_average_exact:
  assumes "0 \<le> timesCompleted prior" "timesCompleted prior < 2 ^ 52"
    and "0 \<le> averageScore prior * timesCompleted prior + averageScore statistics"
    and "averageScore prior * timesCompleted prior + averageScore statistics < 2 ^ 52"
  shows "map_option averageScore (mergeStatistics statistics (Own prior)) =
     Some (Math_round
       (real_of_int (averageScore prior * timesCompleted prior + averageScore statistics)
          / real_of_int (timesCompleted prior + 1)))"
proof -
  have "Math_round
       (js_div (real_of_int (averageScore prior * timesCompleted prior + averageScore statistics))
          (real_of_int (timesCompleted prior + 1)))
     = Math_round
       (real_of_int (averageScore prior * timesCompleted prior + averageScore statistics)
          / real_of_int (timesCompleted prior + 1))"
    using assms by (intro Math_round_js_div) simp_all
  then show ?thesis using assms(1) by (simp add: mergeStatistics_def Let_def)
qed



text \<open>
  The score of a session is rounded from a double that has been rounded twice: \<open>29\<close>
  correct answers out of \<open>200\<close> give \<open>14\<close>, where the exact \<open>14.5\<close> rounds to \<open>15\<close>.
\<close>

lemma calculateScore_29_200:
  "calculateScore 29 200 = 14 \<and> Math_round (29 / 200 * 100) = 15"
  by (simp add: calculateScore_def Math_round_def js_div_29_200 js_mul_29_200_100)

end
